theory Spec2Isabelle
  imports Complex_Main
begin

section \<open>Python values, exceptions and the library functions the program calls\<close>

text \<open>
  The program keeps every event payload in a dynamically typed dictionary and writes it
  to disk with the json module, so the values it handles are exactly the values of a JSON
  document: None, booleans, integers, floats (modelled as reals), strings, lists and
  dictionaries with string keys (association lists, first binding wins on lookup).
\<close>

datatype pyval =
    PNone
  | PBool bool
  | PInt int
  | PFloat real
  | PStr string
  | PList "pyval list"
  | PDict "(string \<times> pyval) list"

datatype pyerr =
    KeyError | TypeError | ValueError | AttributeError
  | JSONDecodeError | FileNotFoundError | PlatformError

text \<open>
  Three facts of the Python runtime and of pynput are not part of the repository and are
  taken as parameters: the member names of the enum \<^verbatim>\<open>keyboard.Key\<close> on the running platform,
  and the parsers behind \<^verbatim>\<open>int(str)\<close> and \<^verbatim>\<open>float(str)\<close>.
\<close>

record lib =
  key_names :: "string set"
  int_of_str :: "string \<Rightarrow> int option"
  float_of_str :: "string \<Rightarrow> real option"

definition seq :: "pyerr + 'a \<Rightarrow> ('a \<Rightarrow> pyerr + 'b) \<Rightarrow> pyerr + 'b" where
  "seq m f = (case m of Inl er \<Rightarrow> Inl er | Inr x \<Rightarrow> f x)"

text \<open>\<^verbatim>\<open>int(v)\<close>: truncation toward zero on floats, parsing on strings, TypeError otherwise.\<close>

fun py_int :: "lib \<Rightarrow> pyval \<Rightarrow> pyerr + int" where
  "py_int L (PInt i) = Inr i"
| "py_int L (PBool b) = Inr (if b then 1 else 0)"
| "py_int L (PFloat r) = Inr (if 0 \<le> r then \<lfloor>r\<rfloor> else \<lceil>r\<rceil>)"
| "py_int L (PStr s) = (case int_of_str L s of None \<Rightarrow> Inl ValueError | Some i \<Rightarrow> Inr i)"
| "py_int L PNone = Inl TypeError"
| "py_int L (PList vs) = Inl TypeError"
| "py_int L (PDict d) = Inl TypeError"

text \<open>\<^verbatim>\<open>float(v)\<close>.\<close>

fun py_float :: "lib \<Rightarrow> pyval \<Rightarrow> pyerr + real" where
  "py_float L (PFloat r) = Inr r"
| "py_float L (PInt i) = Inr (of_int i)"
| "py_float L (PBool b) = Inr (if b then 1 else 0)"
| "py_float L (PStr s) = (case float_of_str L s of None \<Rightarrow> Inl ValueError | Some r \<Rightarrow> Inr r)"
| "py_float L PNone = Inl TypeError"
| "py_float L (PList vs) = Inl TypeError"
| "py_float L (PDict d) = Inl TypeError"

text \<open>\<^verbatim>\<open>bool(v)\<close>: truthiness, never raises.\<close>

fun py_bool :: "pyval \<Rightarrow> bool" where
  "py_bool PNone = False"
| "py_bool (PBool b) = b"
| "py_bool (PInt i) = (i \<noteq> 0)"
| "py_bool (PFloat r) = (r \<noteq> 0)"
| "py_bool (PStr s) = (s \<noteq> [])"
| "py_bool (PList vs) = (vs \<noteq> [])"
| "py_bool (PDict d) = (d \<noteq> [])"

text \<open>\<^verbatim>\<open>v[k]\<close> with a string key: KeyError on a dictionary without the key, TypeError on
  anything that is not a dictionary.\<close>

fun getitem :: "pyval \<Rightarrow> string \<Rightarrow> pyerr + pyval" where
  "getitem (PDict d) k = (case map_of d k of None \<Rightarrow> Inl KeyError | Some v \<Rightarrow> Inr v)"
| "getitem v k = Inl TypeError"

text \<open>\<^verbatim>\<open>v.get(k, default)\<close>: only dictionaries have the method.\<close>

fun dict_get :: "pyval \<Rightarrow> string \<Rightarrow> pyval \<Rightarrow> pyerr + pyval" where
  "dict_get (PDict d) k dflt = Inr (case map_of d k of None \<Rightarrow> dflt | Some v \<Rightarrow> v)"
| "dict_get v k dflt = Inl AttributeError"

text \<open>\<^verbatim>\<open>random.randint(a, b)\<close> on the entropy \<open>r\<close> drawn from the generator.\<close>

definition randint :: "int \<Rightarrow> int \<Rightarrow> int \<Rightarrow> int" where
  "randint a b r = a + r mod (b - a + 1)"

section \<open>models.py\<close>

text \<open>
  The dataclass declares \<^verbatim>\<open>kind: str\<close> and \<^verbatim>\<open>data: Dict[str, Any]\<close>, but nothing enforces
  it: the loader stores whatever the document holds, so both fields are Python values.
\<close>

record event =
  t :: real
  kind :: pyval
  data :: pyval

record macro =
  events :: "event list"


section \<open>utils.py: keys and buttons\<close>

text \<open>
  A key delivered by the pynput listener is a member of the enum \<^verbatim>\<open>keyboard.Key\<close>
  (identified by its name) or a \<^verbatim>\<open>KeyCode\<close>, which pynput compares by its character when it
  has one and by its virtual key code otherwise. The keyboard controller also accepts a
  plain one-character string, which is what \<open>str_to_key\<close> returns for a character key.
\<close>

datatype key =
    Key string
  | KeyCode_char string
  | KeyCode_vk nat
  | Char string

datatype button = Button_left | Button_right | Button_middle | Button_other string

definition digit :: "nat \<Rightarrow> char" where
  "digit n = ''0123456789'' ! n"

function show_nat :: "nat \<Rightarrow> string" where
  "show_nat n = (if n < 10 then [digit n] else show_nat (n div 10) @ [digit (n mod 10)])"
  by pat_completeness auto
termination
  by (relation "measure id") auto

declare show_nat.simps [simp del]

text \<open>
  \<open>key_to_str\<close>: a key with a character is written \<^verbatim>\<open>char:<c>\<close>; otherwise the attribute
  \<^verbatim>\<open>name\<close> is tried (only enum members have it; the AttributeError of a KeyCode or of a
  string is swallowed) and a truthy name is written \<^verbatim>\<open>key:<name>\<close>; the fallback is
  \<^verbatim>\<open>key:<str(k)>\<close>, where pynput prints an enum member as \<^verbatim>\<open>Key.<name>\<close> and a KeyCode
  without character as \<^verbatim>\<open><vk>\<close>.
\<close>

fun key_to_str :: "key \<Rightarrow> string" where
  "key_to_str (KeyCode_char c) = ''char:'' @ c"
| "key_to_str (Key name) = (if name \<noteq> [] then ''key:'' @ name else ''key:Key.'' @ name)"
| "key_to_str (KeyCode_vk n) = ''key:<'' @ show_nat n @ ''>''"
| "key_to_str (Char c) = ''key:'' @ c"

text \<open>
  \<open>str_to_key\<close>: \<^verbatim>\<open>s.split(":", 1)[1]\<close> after a successful \<^verbatim>\<open>startswith\<close> is the rest of the
  string behind the prefix. The enum lookup \<^verbatim>\<open>keyboard.Key[name]\<close> succeeds exactly on the
  member names. A value that is not a string has no \<^verbatim>\<open>startswith\<close>.
\<close>

fun str_to_key :: "lib \<Rightarrow> pyval \<Rightarrow> pyerr + key option" where
  "str_to_key L (PStr s) =
     (if take 5 s = ''char:'' then Inr (Some (Char (drop 5 s)))
      else if take 4 s = ''key:'' then
        (let name = drop 4 s in
         if name \<in> key_names L then Inr (Some (Key name))
         else if take 4 name = ''Key.'' then
           (let name' = drop 4 name in
            if name' \<in> key_names L then Inr (Some (Key name')) else Inr None)
         else Inr None)
      else Inr None)"
| "str_to_key L v = Inl AttributeError"

fun button_to_str :: "button \<Rightarrow> string" where
  "button_to_str Button_left = ''left''"
| "button_to_str Button_right = ''right''"
| "button_to_str Button_middle = ''middle''"
| "button_to_str (Button_other name) = ''Button.'' @ name"

text \<open>\<open>str_to_button\<close>: a dictionary lookup with default; lists and dictionaries are
  unhashable and make the lookup raise TypeError.\<close>

fun str_to_button :: "pyval \<Rightarrow> pyerr + button" where
  "str_to_button (PStr s) =
     Inr (if s = ''left'' then Button_left
          else if s = ''right'' then Button_right
          else if s = ''middle'' then Button_middle
          else Button_left)"
| "str_to_button (PList vs) = Inl TypeError"
| "str_to_button (PDict d) = Inl TypeError"
| "str_to_button v = Inr Button_left"

section \<open>player.py\<close>

text \<open>
  What playback does to the outside world, in order: status messages handed to the status
  callback (\<open>Status_error\<close> is the message \<^verbatim>\<open>Playback error: <exception>\<close>), the timed waits
  on the stop event, the calls on the pynput mouse and keyboard controllers, and, in the
  single-file variant, the exception printed to standard output.
\<close>

datatype out =
    Status string
  | Status_error pyerr
  | Wait real
  | Position int int
  | Press button
  | Release button
  | Scroll int int
  | Key_press key
  | Key_release key
  | Print_error pyerr

text \<open>
  The environment of one loop iteration: whether another thread calls \<open>Player.stop\<close>
  before the first check of the stop event or during the wait, the entropy of the two
  jitter draws, and which controller calls the platform rejects by raising.
\<close>

record env =
  stop_pre :: bool
  stop_mid :: bool
  rand_x :: int
  rand_y :: int
  rejects :: "out \<Rightarrow> bool"

record player =
  stop_evt :: bool
  playing :: bool

definition Player_stop :: "player \<Rightarrow> player" where
  "Player_stop p = p\<lparr>stop_evt := True\<rparr>"

definition platform :: "env \<Rightarrow> out \<Rightarrow> out list \<times> pyerr option" where
  "platform v a = (if rejects v a then ([], Some PlatformError) else ([a], None))"

definition jittered :: "int \<Rightarrow> env \<Rightarrow> int \<times> int \<Rightarrow> int \<times> int" where
  "jittered jitter_px v xy =
     (if jitter_px > 0
      then (fst xy + randint (- jitter_px) jitter_px (rand_x v),
            snd xy + randint (- jitter_px) jitter_px (rand_y v))
      else xy)"

definition xy_of :: "lib \<Rightarrow> event \<Rightarrow> pyerr + int \<times> int" where
  "xy_of L e =
     seq (getitem (data e) ''x'') (\<lambda>vx. seq (py_int L vx) (\<lambda>x.
     seq (getitem (data e) ''y'') (\<lambda>vy. seq (py_int L vy) (\<lambda>y. Inr (x, y)))))"

definition click_args :: "lib \<Rightarrow> event \<Rightarrow> pyerr + (int \<times> int) \<times> button \<times> bool" where
  "click_args L e =
     seq (xy_of L e) (\<lambda>xy.
     seq (getitem (data e) ''button'') (\<lambda>vb. seq (str_to_button vb) (\<lambda>btn.
     seq (getitem (data e) ''pressed'') (\<lambda>vp. Inr (xy, btn, py_bool vp)))))"

definition scroll_args :: "lib \<Rightarrow> event \<Rightarrow> pyerr + int \<times> int" where
  "scroll_args L e =
     seq (dict_get (data e) ''dx'' (PInt 0)) (\<lambda>vx. seq (py_int L vx) (\<lambda>dx.
     seq (dict_get (data e) ''dy'' (PInt 0)) (\<lambda>vy. seq (py_int L vy) (\<lambda>dy. Inr (dx, dy)))))"

definition key_arg :: "lib \<Rightarrow> event \<Rightarrow> pyerr + key option" where
  "key_arg L e = seq (getitem (data e) ''key'') (str_to_key L)"

text \<open>
  The body of the \<^verbatim>\<open>try\<close> for one event: the controller calls made, and the exception that
  ended the body, if any. An event whose kind matches no branch does nothing.
\<close>

definition emit :: "lib \<Rightarrow> int \<Rightarrow> env \<Rightarrow> event \<Rightarrow> out list \<times> pyerr option" where
  "emit L jitter_px v e =
     (if kind e = PStr ''move'' then
        (case xy_of L e of
           Inl er \<Rightarrow> ([], Some er)
         | Inr xy \<Rightarrow>
             (let xy' = jittered jitter_px v xy in platform v (Position (fst xy') (snd xy'))))
      else if kind e = PStr ''click'' then
        (case click_args L e of
           Inl er \<Rightarrow> ([], Some er)
         | Inr (xy, btn, pressed) \<Rightarrow>
             (let xy' = jittered jitter_px v xy in
              case platform v (Position (fst xy') (snd xy')) of
                (os, Some er) \<Rightarrow> (os, Some er)
              | (os, None) \<Rightarrow>
                  (case platform v (if pressed then Press btn else Release btn) of
                     (os', r) \<Rightarrow> (os @ os', r))))
      else if kind e = PStr ''scroll'' then
        (case scroll_args L e of
           Inl er \<Rightarrow> ([], Some er)
         | Inr (dx, dy) \<Rightarrow> platform v (Scroll dx dy))
      else if kind e = PStr ''kpress'' then
        (case key_arg L e of
           Inl er \<Rightarrow> ([], Some er)
         | Inr None \<Rightarrow> ([], None)
         | Inr (Some k) \<Rightarrow> platform v (Key_press k))
      else if kind e = PStr ''krelease'' then
        (case key_arg L e of
           Inl er \<Rightarrow> ([], Some er)
         | Inr None \<Rightarrow> ([], None)
         | Inr (Some k) \<Rightarrow> platform v (Key_release k))
      else ([], None))"

text \<open>The \<^verbatim>\<open>try ... except Exception as ex: on_status(...)\<close> around the body.\<close>

definition emit_guarded :: "lib \<Rightarrow> int \<Rightarrow> env \<Rightarrow> event \<Rightarrow> out list" where
  "emit_guarded L jitter_px v e =
     (case emit L jitter_px v e of
        (os, None) \<Rightarrow> os
      | (os, Some er) \<Rightarrow> os @ [Status_error er])"

text \<open>The precomputed waits: \<^verbatim>\<open>max(0.0, (e.t - prev) / max(1e-6, speed))\<close>.\<close>

fun waits_from :: "real \<Rightarrow> real \<Rightarrow> event list \<Rightarrow> real list" where
  "waits_from speed prev [] = []"
| "waits_from speed prev (e # es) =
     max 0 ((t e - prev) / max (1 / 1000000) speed) # waits_from speed (t e) es"

definition waits :: "real \<Rightarrow> event list \<Rightarrow> real list" where
  "waits speed es = waits_from speed 0 es"

text \<open>
  The emission loop over \<^verbatim>\<open>zip(macro.events, waits)\<close>. Iteration \<open>i\<close> runs in the
  environment \<open>V i\<close>. The stop event is checked, waited on for the precomputed time
  (a stop during the wait ends it early), and checked again; either check breaks the loop.
\<close>

fun play_loop :: "lib \<Rightarrow> int \<Rightarrow> (nat \<Rightarrow> env) \<Rightarrow> nat \<Rightarrow> player \<Rightarrow> (event \<times> real) list
    \<Rightarrow> player \<times> out list" where
  "play_loop L jitter_px V i p [] = (p, [])"
| "play_loop L jitter_px V i p ((e, w) # rest) =
     (let p1 = (if stop_pre (V i) then Player_stop p else p) in
      if stop_evt p1 then (p1, [])
      else
        (let p2 = (if stop_mid (V i) then Player_stop p1 else p1) in
         if stop_evt p2 then (p2, [Wait w])
         else
           (case play_loop L jitter_px V (Suc i) p2 rest of
              (p3, os) \<Rightarrow> (p3, Wait w # emit_guarded L jitter_px (V i) e @ os))))"

definition play :: "lib \<Rightarrow> player \<Rightarrow> macro \<Rightarrow> real \<Rightarrow> int \<Rightarrow> (nat \<Rightarrow> env) \<Rightarrow> player \<times> out list" where
  "play L p m speed jitter_px V =
     (if events m = [] then (p, [Status ''Nothing to play.''])
      else
        (case play_loop L jitter_px V 0 (p\<lparr>playing := True, stop_evt := False\<rparr>)
                (zip (events m) (waits speed (events m))) of
           (p', os) \<Rightarrow>
             (p'\<lparr>playing := False\<rparr>,
              Status ''Playing... (ESC to stop)'' # os @ [Status ''Playback finished.''])))"


section \<open>recorder.py\<close>

text \<open>
  The coordinates and scroll amounts that the pynput listeners hand to the callbacks are
  Python numbers: integers on some platforms, floats on others (macOS reports the pointer
  position in floats). Python compares numbers, and tuples of numbers, by value;
  \<^verbatim>\<open>int(x)\<close> truncates toward zero.
\<close>

datatype num = NInt int | NFloat real

fun num_val :: "num \<Rightarrow> real" where
  "num_val (NInt i) = of_int i"
| "num_val (NFloat r) = r"

fun num_int :: "num \<Rightarrow> int" where
  "num_int (NInt i) = i"
| "num_int (NFloat r) = (if 0 \<le> r then \<lfloor>r\<rfloor> else \<lceil>r\<rceil>)"

fun num_py :: "num \<Rightarrow> pyval" where
  "num_py (NInt i) = PInt i"
| "num_py (NFloat r) = PFloat r"

text \<open>\<^verbatim>\<open>last == (x, y)\<close> for a remembered position that may still be None.\<close>

definition same_pos :: "(num \<times> num) option \<Rightarrow> num \<Rightarrow> num \<Rightarrow> bool" where
  "same_pos lp x y =
     (case lp of
        None \<Rightarrow> False
      | Some (a, b) \<Rightarrow> num_val a = num_val x \<and> num_val b = num_val y)"

text \<open>
  \<^verbatim>\<open>time.perf_counter()\<close> is an input of the program: \<open>pc n\<close> is the value of the \<open>n\<close>-th
  call, and the clock counts the calls made so far. \<open>now_rel\<close> starts a clock that was never
  started, reads the counter and subtracts \<^verbatim>\<open>self._t0 or time.perf_counter()\<close>: an anchor
  equal to \<open>0.0\<close> is falsy, and then the counter is read once more.
\<close>

record recclock =
  t0 :: "real option"
  ticks :: nat

definition RecClock_start :: "(nat \<Rightarrow> real) \<Rightarrow> recclock \<Rightarrow> recclock" where
  "RecClock_start pc c = \<lparr>t0 = Some (pc (ticks c)), ticks = Suc (ticks c)\<rparr>"

definition now_rel :: "(nat \<Rightarrow> real) \<Rightarrow> recclock \<Rightarrow> real \<times> recclock" where
  "now_rel pc c =
     (let c1 = (if t0 c = None then RecClock_start pc c else c);
          a = pc (ticks c1);
          c2 = c1\<lparr>ticks := Suc (ticks c1)\<rparr>
      in case t0 c2 of
           Some z \<Rightarrow>
             if z \<noteq> 0 then (a - z, c2)
             else (a - pc (ticks c2), c2\<lparr>ticks := Suc (ticks c2)\<rparr>)
         | None \<Rightarrow> (a - pc (ticks c2), c2\<lparr>ticks := Suc (ticks c2)\<rparr>))"

text \<open>
  The recorder object. \<open>last_pos\<close> keeps the position as the callback received it, while
  the recorded event keeps its integer part. \<open>ignore_keys\<close> is the attribute of that name,
  which the class never creates: \<open>None\<close> stands for an absent attribute.
\<close>

record recorder =
  clock :: recclock
  move_min_interval :: real
  last_move_t :: real
  last_pos :: "(num \<times> num) option"
  recording :: bool
  macro :: macro
  IGNORE_KEYS :: "key set"
  ignore_keys :: "key set option"

definition Recorder_init :: "real \<Rightarrow> recorder" where
  "Recorder_init interval =
     \<lparr>clock = \<lparr>t0 = None, ticks = 0\<rparr>,
      move_min_interval = interval,
      last_move_t = 0,
      last_pos = None,
      recording = False,
      macro = \<lparr>events = []\<rparr>,
      IGNORE_KEYS = {Key ''f8'', Key ''f9'', Key ''f10'', Key ''f11'', Key ''esc''},
      ignore_keys = None\<rparr>"

definition Recorder_start :: "(nat \<Rightarrow> real) \<Rightarrow> recorder \<Rightarrow> recorder" where
  "Recorder_start pc r =
     (if recording r then r
      else r\<lparr>macro := \<lparr>events = []\<rparr>,
             clock := RecClock_start pc (clock r),
             last_move_t := 0,
             last_pos := None,
             recording := True\<rparr>)"

definition Recorder_stop :: "recorder \<Rightarrow> recorder" where
  "Recorder_stop r = r\<lparr>recording := False\<rparr>"

definition append_event :: "recorder \<Rightarrow> event \<Rightarrow> recorder" where
  "append_event r e = r\<lparr>macro := \<lparr>events = events (macro r) @ [e]\<rparr>\<rparr>"

definition Recorder_on_move :: "(nat \<Rightarrow> real) \<Rightarrow> recorder \<Rightarrow> num \<Rightarrow> num \<Rightarrow> recorder" where
  "Recorder_on_move pc r x y =
     (if \<not> recording r then r
      else
        (case now_rel pc (clock r) of
           (tm, c) \<Rightarrow>
             (let r1 = r\<lparr>clock := c\<rparr> in
              if tm - last_move_t r1 < move_min_interval r1 then r1
              else if same_pos (last_pos r1) x y then r1
              else append_event (r1\<lparr>last_move_t := tm, last_pos := Some (x, y)\<rparr>)
                     \<lparr>t = tm, kind = PStr ''move'',
                      data = PDict [(''x'', PInt (num_int x)), (''y'', PInt (num_int y))]\<rparr>)))"

definition Recorder_on_click ::
    "(nat \<Rightarrow> real) \<Rightarrow> recorder \<Rightarrow> num \<Rightarrow> num \<Rightarrow> button \<Rightarrow> bool \<Rightarrow> recorder" where
  "Recorder_on_click pc r x y b pressed =
     (if \<not> recording r then r
      else
        (case now_rel pc (clock r) of
           (tm, c) \<Rightarrow>
             append_event (r\<lparr>clock := c\<rparr>)
               \<lparr>t = tm, kind = PStr ''click'',
                data = PDict [(''x'', PInt (num_int x)), (''y'', PInt (num_int y)),
                              (''button'', PStr (button_to_str b)),
                              (''pressed'', PBool pressed)]\<rparr>))"

definition Recorder_on_scroll ::
    "(nat \<Rightarrow> real) \<Rightarrow> recorder \<Rightarrow> num \<Rightarrow> num \<Rightarrow> num \<Rightarrow> num \<Rightarrow> recorder" where
  "Recorder_on_scroll pc r x y dx dy =
     (if \<not> recording r then r
      else
        (case now_rel pc (clock r) of
           (tm, c) \<Rightarrow>
             append_event (r\<lparr>clock := c\<rparr>)
               \<lparr>t = tm, kind = PStr ''scroll'',
                data = PDict [(''x'', PInt (num_int x)), (''y'', PInt (num_int y)),
                              (''dx'', PInt (num_int dx)), (''dy'', PInt (num_int dy))]\<rparr>))"

definition Recorder_on_key_press :: "(nat \<Rightarrow> real) \<Rightarrow> recorder \<Rightarrow> key \<Rightarrow> recorder" where
  "Recorder_on_key_press pc r k =
     (if \<not> recording r \<or> k \<in> IGNORE_KEYS r then r
      else
        (case now_rel pc (clock r) of
           (tm, c) \<Rightarrow>
             append_event (r\<lparr>clock := c\<rparr>)
               \<lparr>t = tm, kind = PStr ''kpress'',
                data = PDict [(''key'', PStr (key_to_str k))]\<rparr>))"

definition Recorder_on_key_release :: "(nat \<Rightarrow> real) \<Rightarrow> recorder \<Rightarrow> key \<Rightarrow> recorder" where
  "Recorder_on_key_release pc r k =
     (if \<not> recording r \<or> k \<in> IGNORE_KEYS r then r
      else
        (case now_rel pc (clock r) of
           (tm, c) \<Rightarrow>
             append_event (r\<lparr>clock := c\<rparr>)
               \<lparr>t = tm, kind = PStr ''krelease'',
                data = PDict [(''key'', PStr (key_to_str k))]\<rparr>))"

text \<open>
  A recording session as the recorder sees it: the calls of \<open>start\<close> and \<open>stop\<close> and the
  listener callbacks, in the order in which they run.
\<close>

datatype call =
    Start
  | Stop
  | Move num num
  | Click num num button bool
  | Scrolled num num num num
  | Key_down key
  | Key_up key

fun Recorder_call :: "(nat \<Rightarrow> real) \<Rightarrow> recorder \<Rightarrow> call \<Rightarrow> recorder" where
  "Recorder_call pc r Start = Recorder_start pc r"
| "Recorder_call pc r Stop = Recorder_stop r"
| "Recorder_call pc r (Move x y) = Recorder_on_move pc r x y"
| "Recorder_call pc r (Click x y b pressed) = Recorder_on_click pc r x y b pressed"
| "Recorder_call pc r (Scrolled x y dx dy) = Recorder_on_scroll pc r x y dx dy"
| "Recorder_call pc r (Key_down k) = Recorder_on_key_press pc r k"
| "Recorder_call pc r (Key_up k) = Recorder_on_key_release pc r k"

definition Recorder_run :: "(nat \<Rightarrow> real) \<Rightarrow> recorder \<Rightarrow> call list \<Rightarrow> recorder" where
  "Recorder_run pc r cs = foldl (Recorder_call pc) r cs"

section \<open>main.py: the control surface around recorder and player\<close>

text \<open>\<^verbatim>\<open>ui.keys\<close>: the four function-key labels the interface binds, \<open>DEFAULT_KEYS\<close> unless
  the configuration file overrides them.\<close>

record hotkeys =
  key_record :: string
  key_play :: string
  key_save :: string
  key_open :: string

definition DEFAULT_KEYS :: hotkeys where
  "DEFAULT_KEYS = \<lparr>key_record = ''F3'', key_play = ''F7'', key_save = ''F4'', key_open = ''F6''\<rparr>"

definition FKEY_TO_PYNPUT :: "string \<Rightarrow> key option" where
  "FKEY_TO_PYNPUT =
     map_of (map (\<lambda>i. (''F'' @ show_nat i, Key (''f'' @ show_nat i))) [1..<20])"

definition get_control_keys :: "hotkeys \<Rightarrow> key set" where
  "get_control_keys ks =
     Option.these {FKEY_TO_PYNPUT (key_record ks), FKEY_TO_PYNPUT (key_play ks),
                   FKEY_TO_PYNPUT (key_save ks), FKEY_TO_PYNPUT (key_open ks)}"

record app =
  rec :: recorder
  player :: player
  macro_ref :: macro
  keys :: hotkeys
  current_filename :: string
  status_log :: "out list"

definition set_status :: "app \<Rightarrow> string \<Rightarrow> app" where
  "set_status a msg = a\<lparr>status_log := status_log a @ [Status msg]\<rparr>"

definition app_init :: "hotkeys \<Rightarrow> app" where
  "app_init ks =
     \<lparr>rec = Recorder_init (1 / 100),
      player = \<lparr>stop_evt = False, playing = False\<rparr>,
      macro_ref = \<lparr>events = []\<rparr>,
      keys = ks,
      current_filename = ''Ready'',
      status_log = []\<rparr>"

text \<open>
  \<open>start_rec\<close> hands the control keys to the recorder only if the recorder object has an
  attribute \<^verbatim>\<open>ignore_keys\<close>, and installs the predicate only if it has a method
  \<^verbatim>\<open>set_key_filter\<close>, which class Recorder does not define.
\<close>

definition start_rec :: "(nat \<Rightarrow> real) \<Rightarrow> app \<Rightarrow> app" where
  "start_rec pc a =
     (if playing (player a)
      then set_status a (''Can'' @ [CHR 0x27] @ ''t record during playback.'')
      else
        (let r = rec a;
             r1 = (if ignore_keys r \<noteq> None
                   then r\<lparr>ignore_keys := Some (get_control_keys (keys a))\<rparr> else r)
         in set_status (a\<lparr>rec := Recorder_start pc r1\<rparr>) ''Recording... (F8 to stop)''))"

definition stop_rec :: "app \<Rightarrow> app" where
  "stop_rec a =
     (let r = Recorder_stop (rec a) in
      set_status (a\<lparr>rec := r, macro_ref := macro r\<rparr>)
        (''Recorded '' @ show_nat (length (events (macro r))) @ '' events.''))"

section \<open>ui.py: saving and loading a macro\<close>

text \<open>
  A file holds a JSON document or something \<^verbatim>\<open>json.load\<close> cannot parse. The text layer of
  the json module is not part of the repository: a document is the value \<^verbatim>\<open>json.dump\<close>
  was given and \<^verbatim>\<open>json.load\<close> returns.
\<close>

datatype filedata = Json pyval | Garbage

type_synonym files = "string \<Rightarrow> filedata option"

definition basename :: "string \<Rightarrow> string" where
  "basename path = rev (takeWhile (\<lambda>c. c \<noteq> CHR ''/'') (rev path))"

text \<open>\<^verbatim>\<open>dataclasses.asdict\<close> of an event, and the document that is written.\<close>

definition asdict :: "event \<Rightarrow> pyval" where
  "asdict e = PDict [(''t'', PFloat (t e)), (''kind'', kind e), (''data'', data e)]"

definition payload :: "macro \<Rightarrow> pyval" where
  "payload m = PDict [(''version'', PInt 1), (''events'', PList (map asdict (events m)))]"

definition ui_save :: "app \<Rightarrow> files \<Rightarrow> string \<Rightarrow> app \<times> files" where
  "ui_save a fs path =
     (let m = macro_ref a in
      if events m = [] then (set_status a ''Nothing to save.'', fs)
      else if path = [] then (a, fs)
      else
        (set_status (a\<lparr>current_filename := basename path\<rparr>)
           (''Saved '' @ show_nat (length (events m)) @ '' events ''
              @ [CHR 0xE2, CHR 0x86, CHR 0x92] @ '' '' @ basename path),
         fs(path \<mapsto> Json (payload m))))"

definition read_json :: "files \<Rightarrow> string \<Rightarrow> pyerr + pyval" where
  "read_json fs path =
     (case fs path of
        None \<Rightarrow> Inl FileNotFoundError
      | Some Garbage \<Rightarrow> Inl JSONDecodeError
      | Some (Json v) \<Rightarrow> Inr v)"

text \<open>What a \<^verbatim>\<open>for\<close> loop iterates over: the elements of a list, the keys of a dictionary,
  the characters of a string; anything else is not iterable.\<close>

fun py_iter :: "pyval \<Rightarrow> pyerr + pyval list" where
  "py_iter (PList vs) = Inr vs"
| "py_iter (PDict d) = Inr (map (\<lambda>kv. PStr (fst kv)) d)"
| "py_iter (PStr s) = Inr (map (\<lambda>c. PStr [c]) s)"
| "py_iter v = Inl TypeError"

text \<open>\<^verbatim>\<open>Event(t=float(e["t"]), kind=e["kind"], data=e["data"])\<close>, evaluated left to right.\<close>

definition load_event :: "lib \<Rightarrow> pyval \<Rightarrow> pyerr + event" where
  "load_event L e =
     seq (getitem e ''t'') (\<lambda>vt. seq (py_float L vt) (\<lambda>tm.
     seq (getitem e ''kind'') (\<lambda>k.
     seq (getitem e ''data'') (\<lambda>d. Inr \<lparr>t = tm, kind = k, data = d\<rparr>))))"

fun load_events :: "lib \<Rightarrow> pyval list \<Rightarrow> pyerr + event list" where
  "load_events L [] = Inr []"
| "load_events L (e # es) =
     seq (load_event L e) (\<lambda>x. seq (load_events L es) (\<lambda>xs. Inr (x # xs)))"

definition events_of_payload :: "lib \<Rightarrow> pyval \<Rightarrow> pyerr + event list" where
  "events_of_payload L v =
     seq (dict_get v ''events'' (PList [])) (\<lambda>l. seq (py_iter l) (load_events L))"

text \<open>
  \<open>ui_load\<close> returns the state after the call and the exception that left it, if any.
  Everything that can raise runs before the first assignment.
\<close>

definition ui_load :: "lib \<Rightarrow> app \<Rightarrow> files \<Rightarrow> string \<Rightarrow> app \<times> pyerr option" where
  "ui_load L a fs path =
     (if path = [] then (a, None)
      else
        (case seq (read_json fs path) (events_of_payload L) of
           Inl er \<Rightarrow> (a, Some er)
         | Inr evs \<Rightarrow>
             (set_status (a\<lparr>macro_ref := \<lparr>events = evs\<rparr>, current_filename := basename path\<rparr>)
                (''Loaded '' @ show_nat (length evs) @ '' event''
                   @ (if length evs \<noteq> 1 then ''s'' else []) @ '' ''
                   @ [CHR 0xE2, CHR 0x86, CHR 0x90] @ '' '' @ basename path),
              None)))"

section \<open>MacOSTinyTask.py: the single-file variant\<close>

text \<open>
  The script keeps its state in module globals. Names that the modular variant also uses
  carry a prime here. \<open>ticks'\<close> counts the calls of \<^verbatim>\<open>time.perf_counter()\<close>.
\<close>

record globals =
  macro' :: macro
  recording' :: bool
  playing' :: bool
  rec_start_time :: "real option"
  last_move_time :: real
  last_move_pos :: "(num \<times> num) option"
  stop_play_event :: bool
  ticks' :: nat

definition MOVE_MIN_INTERVAL :: real where
  "MOVE_MIN_INTERVAL = 1 / 100"

definition IGNORE_KEYS' :: "key set" where
  "IGNORE_KEYS' = {Key ''f8'', Key ''f9'', Key ''f10'', Key ''f11'', Key ''esc''}"

definition globals_init :: globals where
  "globals_init =
     \<lparr>macro' = \<lparr>events = []\<rparr>, recording' = False, playing' = False,
      rec_start_time = None, last_move_time = 0, last_move_pos = None,
      stop_play_event = False, ticks' = 0\<rparr>"

definition now_rel' :: "(nat \<Rightarrow> real) \<Rightarrow> globals \<Rightarrow> real \<times> globals" where
  "now_rel' pc g =
     (let a = pc (ticks' g);
          g1 = g\<lparr>ticks' := Suc (ticks' g)\<rparr>
      in case rec_start_time g1 of
           Some z \<Rightarrow>
             if z \<noteq> 0 then (a - z, g1)
             else (a - pc (ticks' g1), g1\<lparr>ticks' := Suc (ticks' g1)\<rparr>)
         | None \<Rightarrow> (a - pc (ticks' g1), g1\<lparr>ticks' := Suc (ticks' g1)\<rparr>))"

fun key_to_str' :: "key \<Rightarrow> string" where
  "key_to_str' (KeyCode_char c) = ''char:'' @ c"
| "key_to_str' (Key name) = ''key:Key.'' @ name"
| "key_to_str' (KeyCode_vk n) = ''key:<'' @ show_nat n @ ''>''"
| "key_to_str' (Char c) = ''key:'' @ c"

text \<open>\<^verbatim>\<open>getattr(keyboard.Key, keyname, None)\<close> is read as the lookup of an enum member.\<close>

fun str_to_key' :: "lib \<Rightarrow> pyval \<Rightarrow> pyerr + key option" where
  "str_to_key' L (PStr s) =
     (if take 5 s = ''char:'' then Inr (Some (Char (drop 5 s)))
      else if take 4 s = ''key:'' then
        (let name = drop 4 s in
         if take 4 name = ''Key.'' then
           (let keyname = drop 4 name in
            if keyname \<in> key_names L then Inr (Some (Key keyname)) else Inr None)
         else Inr None)
      else Inr None)"
| "str_to_key' L v = Inl AttributeError"

fun button_to_str' :: "button \<Rightarrow> string" where
  "button_to_str' Button_left = ''left''"
| "button_to_str' Button_right = ''right''"
| "button_to_str' Button_middle = ''middle''"
| "button_to_str' (Button_other name) = ''Button.'' @ name"

fun str_to_button' :: "pyval \<Rightarrow> pyerr + button" where
  "str_to_button' (PStr s) =
     Inr (if s = ''left'' then Button_left
          else if s = ''right'' then Button_right
          else if s = ''middle'' then Button_middle
          else Button_left)"
| "str_to_button' (PList vs) = Inl TypeError"
| "str_to_button' (PDict d) = Inl TypeError"
| "str_to_button' v = Inr Button_left"

definition start_recording :: "(nat \<Rightarrow> real) \<Rightarrow> globals \<Rightarrow> globals \<times> out list" where
  "start_recording pc g =
     (if playing' g then (g, [Status (''Can'' @ [CHR 0x27] @ ''t record during playback.'')])
      else
        (g\<lparr>macro' := \<lparr>events = []\<rparr>,
           rec_start_time := Some (pc (ticks' g)),
           ticks' := Suc (ticks' g),
           last_move_time := 0,
           last_move_pos := None,
           recording' := True\<rparr>,
         [Status ''Recording... (F8 to stop)'']))"

definition stop_recording :: "globals \<Rightarrow> globals \<times> out list" where
  "stop_recording g =
     (g\<lparr>recording' := False\<rparr>,
      [Status (''Recorded '' @ show_nat (length (events (macro' g))) @ '' events.'')])"

definition append_event' :: "globals \<Rightarrow> event \<Rightarrow> globals" where
  "append_event' g e = g\<lparr>macro' := \<lparr>events = events (macro' g) @ [e]\<rparr>\<rparr>"

text \<open>\<open>on_move\<close> of the script stores the time of the callback before it compares the
  position. The script records the coordinates as it receives them.\<close>

definition on_move :: "(nat \<Rightarrow> real) \<Rightarrow> globals \<Rightarrow> num \<Rightarrow> num \<Rightarrow> globals" where
  "on_move pc g x y =
     (if \<not> recording' g then g
      else
        (case now_rel' pc g of
           (tm, g1) \<Rightarrow>
             if tm - last_move_time g1 < MOVE_MIN_INTERVAL then g1
             else
               (let g2 = g1\<lparr>last_move_time := tm\<rparr> in
                if same_pos (last_move_pos g2) x y then g2
                else append_event' (g2\<lparr>last_move_pos := Some (x, y)\<rparr>)
                       \<lparr>t = tm, kind = PStr ''move'',
                        data = PDict [(''x'', num_py x), (''y'', num_py y)]\<rparr>)))"

definition on_click :: "(nat \<Rightarrow> real) \<Rightarrow> globals \<Rightarrow> num \<Rightarrow> num \<Rightarrow> button \<Rightarrow> bool \<Rightarrow> globals" where
  "on_click pc g x y b pressed =
     (if \<not> recording' g then g
      else
        (case now_rel' pc g of
           (tm, g1) \<Rightarrow>
             append_event' g1
               \<lparr>t = tm, kind = PStr ''click'',
                data = PDict [(''x'', num_py x), (''y'', num_py y),
                              (''button'', PStr (button_to_str' b)),
                              (''pressed'', PBool pressed)]\<rparr>))"

definition on_scroll :: "(nat \<Rightarrow> real) \<Rightarrow> globals \<Rightarrow> num \<Rightarrow> num \<Rightarrow> num \<Rightarrow> num \<Rightarrow> globals" where
  "on_scroll pc g x y dx dy =
     (if \<not> recording' g then g
      else
        (case now_rel' pc g of
           (tm, g1) \<Rightarrow>
             append_event' g1
               \<lparr>t = tm, kind = PStr ''scroll'',
                data = PDict [(''x'', num_py x), (''y'', num_py y),
                              (''dx'', PInt (num_int dx)), (''dy'', PInt (num_int dy))]\<rparr>))"

definition on_key_press :: "(nat \<Rightarrow> real) \<Rightarrow> globals \<Rightarrow> key \<Rightarrow> globals" where
  "on_key_press pc g k =
     (if \<not> recording' g then g
      else if k \<in> IGNORE_KEYS' then g
      else
        (case now_rel' pc g of
           (tm, g1) \<Rightarrow>
             append_event' g1
               \<lparr>t = tm, kind = PStr ''kpress'',
                data = PDict [(''key'', PStr (key_to_str' k))]\<rparr>))"

definition on_key_release :: "(nat \<Rightarrow> real) \<Rightarrow> globals \<Rightarrow> key \<Rightarrow> globals" where
  "on_key_release pc g k =
     (if \<not> recording' g then g
      else if k \<in> IGNORE_KEYS' then g
      else
        (case now_rel' pc g of
           (tm, g1) \<Rightarrow>
             append_event' g1
               \<lparr>t = tm, kind = PStr ''krelease'',
                data = PDict [(''key'', PStr (key_to_str' k))]\<rparr>))"

definition click_args' :: "lib \<Rightarrow> event \<Rightarrow> pyerr + (int \<times> int) \<times> button \<times> bool" where
  "click_args' L e =
     seq (xy_of L e) (\<lambda>xy.
     seq (getitem (data e) ''button'') (\<lambda>vb. seq (str_to_button' vb) (\<lambda>btn.
     seq (getitem (data e) ''pressed'') (\<lambda>vp. Inr (xy, btn, py_bool vp)))))"

definition key_arg' :: "lib \<Rightarrow> event \<Rightarrow> pyerr + key option" where
  "key_arg' L e = seq (getitem (data e) ''key'') (str_to_key' L)"

definition emit' :: "lib \<Rightarrow> int \<Rightarrow> env \<Rightarrow> event \<Rightarrow> out list \<times> pyerr option" where
  "emit' L jitter v e =
     (if kind e = PStr ''move'' then
        (case xy_of L e of
           Inl er \<Rightarrow> ([], Some er)
         | Inr xy \<Rightarrow>
             (let xy' = jittered jitter v xy in platform v (Position (fst xy') (snd xy'))))
      else if kind e = PStr ''click'' then
        (case click_args' L e of
           Inl er \<Rightarrow> ([], Some er)
         | Inr (xy, btn, pressed) \<Rightarrow>
             (let xy' = jittered jitter v xy in
              case platform v (Position (fst xy') (snd xy')) of
                (os, Some er) \<Rightarrow> (os, Some er)
              | (os, None) \<Rightarrow>
                  (case platform v (if pressed then Press btn else Release btn) of
                     (os', r) \<Rightarrow> (os @ os', r))))
      else if kind e = PStr ''scroll'' then
        (case scroll_args L e of
           Inl er \<Rightarrow> ([], Some er)
         | Inr (dx, dy) \<Rightarrow> platform v (Scroll dx dy))
      else if kind e = PStr ''kpress'' then
        (case key_arg' L e of
           Inl er \<Rightarrow> ([], Some er)
         | Inr None \<Rightarrow> ([], None)
         | Inr (Some k) \<Rightarrow> platform v (Key_press k))
      else if kind e = PStr ''krelease'' then
        (case key_arg' L e of
           Inl er \<Rightarrow> ([], Some er)
         | Inr None \<Rightarrow> ([], None)
         | Inr (Some k) \<Rightarrow> platform v (Key_release k))
      else ([], None))"

text \<open>The script prints the exception instead of handing it to the status label.\<close>

definition emit_guarded' :: "lib \<Rightarrow> int \<Rightarrow> env \<Rightarrow> event \<Rightarrow> out list" where
  "emit_guarded' L jitter v e =
     (case emit' L jitter v e of
        (os, None) \<Rightarrow> os
      | (os, Some er) \<Rightarrow> os @ [Print_error er])"

definition stop_playback :: "globals \<Rightarrow> globals \<times> out list" where
  "stop_playback g = (g\<lparr>stop_play_event := True\<rparr>, [Status ''Stopping playback...''])"

text \<open>
  The loop of \<open>play_once\<close>. \<^verbatim>\<open>_sleep_interval\<close> is entered only for a positive wait and
  returns early when the stop event is set while it polls.
\<close>

fun play_loop' :: "lib \<Rightarrow> int \<Rightarrow> (nat \<Rightarrow> env) \<Rightarrow> nat \<Rightarrow> globals \<Rightarrow> (event \<times> real) list
    \<Rightarrow> globals \<times> out list" where
  "play_loop' L jitter V i g [] = (g, [])"
| "play_loop' L jitter V i g ((e, w) # rest) =
     (let g1 = (if stop_pre (V i) then fst (stop_playback g) else g) in
      if stop_play_event g1 then (g1, [])
      else
        (let slept = (if w > 0 then [Wait w] else []);
             g2 = (if stop_mid (V i) then fst (stop_playback g1) else g1) in
         if stop_play_event g2 then (g2, slept)
         else
           (case play_loop' L jitter V (Suc i) g2 rest of
              (g3, os) \<Rightarrow> (g3, slept @ emit_guarded' L jitter (V i) e @ os))))"

definition play_once :: "lib \<Rightarrow> globals \<Rightarrow> real \<Rightarrow> int \<Rightarrow> (nat \<Rightarrow> env) \<Rightarrow> globals \<times> out list" where
  "play_once L g speed jitter V =
     (if events (macro' g) = []
      then (g, [Status ''Nothing to play. Record or load a macro first.''])
      else
        (case play_loop' L jitter V 0 (g\<lparr>playing' := True, stop_play_event := False\<rparr>)
                (zip (events (macro' g)) (waits speed (events (macro' g)))) of
           (g', os) \<Rightarrow>
             (g'\<lparr>playing' := False\<rparr>,
              Status ''Playing... (ESC to stop)'' # os @ [Status ''Playback finished.''])))"

text \<open>
  The head of \<open>start_playback\<close>: the three entry fields are parsed, a field that does not
  parse takes its default, and out-of-range values are replaced before \<open>play_once\<close> is
  called with them.
\<close>

definition start_playback_params :: "lib \<Rightarrow> string \<Rightarrow> string \<Rightarrow> string \<Rightarrow> real \<times> int \<times> int" where
  "start_playback_params L speed_var loops_var jitter_var =
     (let speed = (case float_of_str L speed_var of None \<Rightarrow> 1 | Some r \<Rightarrow> r);
          loops = (case int_of_str L loops_var of None \<Rightarrow> 1 | Some n \<Rightarrow> n);
          jitter = (case int_of_str L jitter_var of None \<Rightarrow> 0 | Some n \<Rightarrow> n)
      in (if speed \<le> 0 then 1 else speed,
          if loops < 1 then 1 else loops,
          if jitter < 0 then 0 else jitter))"

definition save_macro :: "globals \<Rightarrow> files \<Rightarrow> string \<Rightarrow> files \<times> out list" where
  "save_macro g fs path =
     (if events (macro' g) = [] then (fs, [Status ''Nothing to save.''])
      else if path = [] then (fs, [])
      else
        (fs(path \<mapsto> Json (payload (macro' g))),
         [Status (''Saved '' @ show_nat (length (events (macro' g))) @ '' events to ''
                   @ basename path @ ''.'')]))"

definition load_macro :: "lib \<Rightarrow> globals \<Rightarrow> files \<Rightarrow> string \<Rightarrow> (globals \<times> out list) \<times> pyerr option" where
  "load_macro L g fs path =
     (if path = [] then ((g, []), None)
      else
        (case seq (read_json fs path) (events_of_payload L) of
           Inl er \<Rightarrow> ((g, []), Some er)
         | Inr evs \<Rightarrow>
             ((g\<lparr>macro' := \<lparr>events = evs\<rparr>\<rparr>,
               [Status (''Loaded '' @ show_nat (length evs) @ '' events from ''
                         @ basename path @ ''.'')]),
              None)))"

section \<open>Notions used in the statements\<close>

text \<open>
  The trace of a run of the emission loop over the given pairs that no stop request
  interrupts: for each event in order its wait, then whatever its guarded emission does.
\<close>

fun steps :: "lib \<Rightarrow> int \<Rightarrow> (nat \<Rightarrow> env) \<Rightarrow> nat \<Rightarrow> (event \<times> real) list \<Rightarrow> out list" where
  "steps L jitter_px V i [] = []"
| "steps L jitter_px V i ((e, w) # rest) =
     Wait w # emit_guarded L jitter_px (V i) e @ steps L jitter_px V (Suc i) rest"

fun steps' :: "lib \<Rightarrow> int \<Rightarrow> (nat \<Rightarrow> env) \<Rightarrow> nat \<Rightarrow> (event \<times> real) list \<Rightarrow> out list" where
  "steps' L jitter V i [] = []"
| "steps' L jitter V i ((e, w) # rest) =
     (if w > 0 then [Wait w] else []) @ emit_guarded' L jitter (V i) e
       @ steps' L jitter V (Suc i) rest"

text \<open>No stop request reaches iteration \<open>i\<close>.\<close>

definition undisturbed :: "(nat \<Rightarrow> env) \<Rightarrow> nat \<Rightarrow> bool" where
  "undisturbed V i = (\<not> stop_pre (V i) \<and> \<not> stop_mid (V i))"

text \<open>
  The wait before event \<open>i\<close> as the specification words it: the difference to the previous
  timestamp (0 before the first event) divided by the speed, a speed that is not positive
  being replaced by 1.
\<close>

definition spec_wait :: "real \<Rightarrow> event list \<Rightarrow> nat \<Rightarrow> real" where
  "spec_wait speed es i =
     max 0 ((t (es ! i) - (if i = 0 then 0 else t (es ! (i - 1))))
            / (if speed \<le> 0 then 1 else speed))"

text \<open>The timeouts of the waits that occur in a trace, in order.\<close>

fun wait_of :: "out \<Rightarrow> real list" where
  "wait_of (Wait w) = [w]"
| "wait_of a = []"

definition waited :: "out list \<Rightarrow> real list" where
  "waited os = concat (map wait_of os)"

text \<open>Sample inputs: a library table with four key names, an environment in which nothing
  interferes, an idle player, and recorded events of the shapes the recorder writes.\<close>

definition lib0 :: lib where
  "lib0 = \<lparr>key_names = {''f1'', ''f3'', ''esc'', ''space''},
           int_of_str = (\<lambda>s. None), float_of_str = (\<lambda>s. None)\<rparr>"

definition quiet :: env where
  "quiet = \<lparr>stop_pre = False, stop_mid = False, rand_x = 0, rand_y = 0,
            rejects = (\<lambda>a. False)\<rparr>"

definition idle :: player where
  "idle = \<lparr>stop_evt = False, playing = False\<rparr>"

definition move_event :: "real \<Rightarrow> int \<Rightarrow> int \<Rightarrow> event" where
  "move_event tm x y =
     \<lparr>t = tm, kind = PStr ''move'', data = PDict [(''x'', PInt x), (''y'', PInt y)]\<rparr>"

definition click_event :: "real \<Rightarrow> int \<Rightarrow> int \<Rightarrow> string \<Rightarrow> bool \<Rightarrow> event" where
  "click_event tm x y b pressed =
     \<lparr>t = tm, kind = PStr ''click'',
      data = PDict [(''x'', PInt x), (''y'', PInt y), (''button'', PStr b),
                    (''pressed'', PBool pressed)]\<rparr>"

definition key_event :: "real \<Rightarrow> string \<Rightarrow> string \<Rightarrow> event" where
  "key_event tm k s = \<lparr>t = tm, kind = PStr k, data = PDict [(''key'', PStr s)]\<rparr>"


definition sample_macro :: macro where
  "sample_macro =
     \<lparr>events = [move_event 0 10 10, click_event 1 10 10 ''left'' True,
                click_event 2 10 10 ''left'' False]\<rparr>"



definition fkeys_macro :: macro where
  "fkeys_macro =
     \<lparr>events = [key_event 0 ''kpress'' (key_to_str (KeyCode_char ''f'')),
                key_event 1 ''kpress'' (key_to_str (Key ''f1''))]\<rparr>"

definition doc_missing_kind :: pyval where
  "doc_missing_kind =
     PDict [(''version'', PInt 1),
            (''events'', PList [PDict [(''t'', PFloat 0), (''data'', PDict [])]])]"

definition doc_unknown_kind :: pyval where
  "doc_unknown_kind =
     PDict [(''version'', PInt 1),
            (''events'',
             PList [PDict [(''t'', PFloat 0), (''kind'', PStr ''teleport''),
                           (''data'', PDict [])]])]"

definition loaded_app :: app where
  "loaded_app = (app_init DEFAULT_KEYS)\<lparr>macro_ref := sample_macro\<rparr>"

definition loaded_globals :: globals where
  "loaded_globals = globals_init\<lparr>macro' := sample_macro\<rparr>"

text \<open>The performance counter is monotonic and its readings are positive.\<close>

definition clock_ok :: "(nat \<Rightarrow> real) \<Rightarrow> bool" where
  "clock_ok pc = (mono pc \<and> (\<forall>n. 0 < pc n))"

text \<open>
  What holds of a recorder between calls: the timestamps of its macro never decrease, and
  while it records, its clock has a nonzero anchor and no recorded timestamp lies beyond
  the next reading of the clock.
\<close>

definition recorder_inv :: "(nat \<Rightarrow> real) \<Rightarrow> recorder \<Rightarrow> bool" where
  "recorder_inv pc r =
     (sorted (map t (events (macro r)))
      \<and> (recording r \<longrightarrow>
           (\<exists>z. t0 (clock r) = Some z \<and> z \<noteq> 0
                \<and> (\<forall>e \<in> set (events (macro r)). t e \<le> pc (ticks (clock r)) - z))))"

text \<open>Counter readings of a sample session: the recording starts at 100 seconds and the
  next three readings come 20, 40 and 45 milliseconds later.\<close>

definition pc0 :: "nat \<Rightarrow> real" where
  "pc0 n = (if n = 0 then 100
            else if n = 1 then 100 + 20 / 1000
            else if n = 2 then 100 + 40 / 1000
            else if n = 3 then 100 + 45 / 1000
            else 101)"

text \<open>The same session as the script sees it.\<close>

fun script_call :: "(nat \<Rightarrow> real) \<Rightarrow> globals \<Rightarrow> call \<Rightarrow> globals" where
  "script_call pc g Start = fst (start_recording pc g)"
| "script_call pc g Stop = fst (stop_recording g)"
| "script_call pc g (Move x y) = on_move pc g x y"
| "script_call pc g (Click x y b pressed) = on_click pc g x y b pressed"
| "script_call pc g (Scrolled x y dx dy) = on_scroll pc g x y dx dy"
| "script_call pc g (Key_down k) = on_key_press pc g k"
| "script_call pc g (Key_up k) = on_key_release pc g k"

definition script_run :: "(nat \<Rightarrow> real) \<Rightarrow> globals \<Rightarrow> call list \<Rightarrow> globals" where
  "script_run pc g cs = foldl (script_call pc) g cs"

text \<open>
  The move events of a macro, and what it means for them to be throttled: each one comes
  at least the interval after the one before it (\<open>spaced\<close>), and no two consecutive ones
  carry the same recorded position (\<open>no_repeat\<close>).
\<close>

definition moves :: "event list \<Rightarrow> event list" where
  "moves es = filter (\<lambda>e. kind e = PStr ''move'') es"

fun spaced :: "real \<Rightarrow> event list \<Rightarrow> bool" where
  "spaced iv (a # b # rest) = (iv \<le> t b - t a \<and> spaced iv (b # rest))"
| "spaced iv [a] = True"
| "spaced iv [] = True"

fun no_repeat :: "event list \<Rightarrow> bool" where
  "no_repeat (a # b # rest) = (data a \<noteq> data b \<and> no_repeat (b # rest))"
| "no_repeat [a] = True"
| "no_repeat [] = True"

text \<open>A number without fractional part, and a session all of whose move callbacks carry
  such coordinates.\<close>

definition integral :: "num \<Rightarrow> bool" where
  "integral n = (num_val n = of_int (num_int n))"

fun integral_call :: "call \<Rightarrow> bool" where
  "integral_call (Move x y) = (integral x \<and> integral y)"
| "integral_call c = True"

definition integral_session :: "call list \<Rightarrow> bool" where
  "integral_session cs = list_all integral_call cs"

text \<open>
  What holds of the throttle state between calls. In recorder.py the remembered time is
  the timestamp of the last recorded move; in the script it is at least that. The
  remembered position is the one the last recorded move was called with.
\<close>

definition throttle_inv :: "recorder \<Rightarrow> bool" where
  "throttle_inv r =
     (spaced (move_min_interval r) (moves (events (macro r)))
      \<and> (recording r \<and> moves (events (macro r)) \<noteq> [] \<longrightarrow>
           t (last (moves (events (macro r)))) = last_move_t r))"

definition repeat_inv :: "recorder \<Rightarrow> bool" where
  "repeat_inv r =
     (no_repeat (moves (events (macro r)))
      \<and> (recording r \<and> moves (events (macro r)) \<noteq> [] \<longrightarrow>
           (\<exists>x y. last_pos r = Some (x, y) \<and> integral x \<and> integral y
                 \<and> data (last (moves (events (macro r))))
                     = PDict [(''x'', PInt (num_int x)), (''y'', PInt (num_int y))])))"

definition throttle_inv' :: "globals \<Rightarrow> bool" where
  "throttle_inv' g =
     (spaced MOVE_MIN_INTERVAL (moves (events (macro' g)))
      \<and> no_repeat (moves (events (macro' g)))
      \<and> (recording' g \<and> moves (events (macro' g)) \<noteq> [] \<longrightarrow>
           t (last (moves (events (macro' g)))) \<le> last_move_time g
           \<and> (\<exists>x y. last_move_pos g = Some (x, y)
                 \<and> data (last (moves (events (macro' g))))
                     = PDict [(''x'', num_py x), (''y'', num_py y)])))"

section \<open>Playback: the precomputed waits\<close>

lemma waits_from_length: "length (waits_from speed prev es) = length es"
  by (induction es arbitrary: prev) simp_all

lemma waits_from_nth:
  "i < length es \<Longrightarrow>
   waits_from speed prev es ! i =
     max 0 ((t (es ! i) - (if i = 0 then prev else t (es ! (i - 1)))) / max (1 / 1000000) speed)"
proof (induction es arbitrary: prev i)
  case Nil
  then show ?case by simp
next
  case (Cons e es)
  show ?case
  proof (cases i)
    case 0
    then show ?thesis by simp
  next
    case (Suc k)
    with Cons.prems have k: "k < length es" by simp
    show ?thesis
      using Cons.IH [OF k, of "t e"] Suc by (cases k) simp_all
  qed
qed

lemma waits_length: "length (waits speed es) = length es"
  by (simp add: waits_def waits_from_length)

lemma waits_nonneg: "w \<in> set (waits_from speed prev es) \<Longrightarrow> 0 \<le> w"
  by (induction es arbitrary: prev) auto

section \<open>Playback: the emission loop\<close>


lemma play_loop_quiet:
  "\<not> stop_evt p \<Longrightarrow> (\<And>k. k < length ews \<Longrightarrow> undisturbed V (i + k)) \<Longrightarrow>
   play_loop L j V i p ews = (p, steps L j V i ews)"
proof (induction ews arbitrary: i)
  case Nil
  then show ?case by simp
next
  case (Cons ew ews)
  obtain e w where ew: "ew = (e, w)" by (cases ew)
  have q0: "undisturbed V i" using Cons.prems(2) [of 0] by simp
  have rest: "\<And>k. k < length ews \<Longrightarrow> undisturbed V (Suc i + k)"
    using Cons.prems(2) by (metis Suc_less_eq add_Suc_shift length_Cons)
  have "play_loop L j V (Suc i) p ews = (p, steps L j V (Suc i) ews)"
    using Cons.IH [OF Cons.prems(1) rest] by simp
  then show ?case
    using q0 Cons.prems(1) by (simp add: ew undisturbed_def)
qed




lemma play_loop'_quiet:
  "\<not> stop_play_event g \<Longrightarrow> (\<And>k. k < length ews \<Longrightarrow> undisturbed V (i + k)) \<Longrightarrow>
   play_loop' L j V i g ews = (g, steps' L j V i ews)"
proof (induction ews arbitrary: i)
  case Nil
  then show ?case by simp
next
  case (Cons ew ews)
  obtain e w where ew: "ew = (e, w)" by (cases ew)
  have q0: "undisturbed V i" using Cons.prems(2) [of 0] by simp
  have rest: "\<And>k. k < length ews \<Longrightarrow> undisturbed V (Suc i + k)"
    using Cons.prems(2) by (metis Suc_less_eq add_Suc_shift length_Cons)
  have "play_loop' L j V (Suc i) g ews = (g, steps' L j V (Suc i) ews)"
    using Cons.IH [OF Cons.prems(1) rest] by simp
  then show ?case
    using q0 Cons.prems(1) by (simp add: ew undisturbed_def)
qed


section \<open>Playback: traces of whole runs\<close>

lemma waited_append: "waited (xs @ ys) = waited xs @ waited ys"
  by (simp add: waited_def)

lemma waited_emit: "waited (fst (emit L j v e)) = []"
  by (simp add: emit_def Let_def waited_def platform_def
        split: sum.split prod.split option.split)

lemma waited_emit': "waited (fst (emit' L j v e)) = []"
  by (simp add: emit'_def Let_def waited_def platform_def
        split: sum.split prod.split option.split)

lemma waited_emit_guarded: "waited (emit_guarded L j v e) = []"
  using waited_emit [of L j v e]
  by (cases "emit L j v e") (auto simp: emit_guarded_def waited_def split: option.splits)

lemma waited_emit_guarded': "waited (emit_guarded' L j v e) = []"
  using waited_emit' [of L j v e]
  by (cases "emit' L j v e") (auto simp: emit_guarded'_def waited_def split: option.splits)

lemma waited_steps:
  "length ws = length es \<Longrightarrow> waited (steps L j V i (zip es ws)) = ws"
proof (induction es arbitrary: ws i)
  case Nil
  then show ?case by (simp add: waited_def)
next
  case (Cons e es)
  then obtain w ws' where ws: "ws = w # ws'" by (cases ws) auto
  with Cons.prems have "length ws' = length es" by simp
  from Cons.IH [OF this] have "waited (steps L j V (Suc i) (zip es ws')) = ws'" .
  then show ?case
    using waited_emit_guarded [of L j "V i" e]
    by (simp add: ws waited_def)
qed

lemma waited_steps':
  "length ws = length es \<Longrightarrow> waited (steps' L j V i (zip es ws)) = filter (\<lambda>w. 0 < w) ws"
proof (induction es arbitrary: ws i)
  case Nil
  then show ?case by (simp add: waited_def)
next
  case (Cons e es)
  then obtain w ws' where ws: "ws = w # ws'" by (cases ws) auto
  with Cons.prems have "length ws' = length es" by simp
  from Cons.IH [OF this]
  have "waited (steps' L j V (Suc i) (zip es ws')) = filter (\<lambda>w. 0 < w) ws'" .
  then show ?case
    using waited_emit_guarded' [of L j "V i" e]
    by (simp add: ws waited_def)
qed

lemma play_undisturbed:
  assumes "events m \<noteq> []" and "\<And>k. k < length (events m) \<Longrightarrow> undisturbed V k"
  shows "play L p m speed j V =
     (\<lparr>stop_evt = False, playing = False\<rparr>,
      Status ''Playing... (ESC to stop)''
        # steps L j V 0 (zip (events m) (waits speed (events m)))
        @ [Status ''Playback finished.''])"
proof -
  let ?p = "p\<lparr>playing := True, stop_evt := False\<rparr>"
  let ?ews = "zip (events m) (waits speed (events m))"
  have "play_loop L j V 0 ?p ?ews = (?p, steps L j V 0 ?ews)"
    using assms(2) by (intro play_loop_quiet) (simp_all add: waits_length)
  then show ?thesis
    using assms(1) by (simp add: play_def)
qed

lemma play_once_undisturbed:
  assumes "events (macro' g) \<noteq> []" and "\<And>k. k < length (events (macro' g)) \<Longrightarrow> undisturbed V k"
  shows "play_once L g speed j V =
     (g\<lparr>playing' := False, stop_play_event := False\<rparr>,
      Status ''Playing... (ESC to stop)''
        # steps' L j V 0 (zip (events (macro' g)) (waits speed (events (macro' g))))
        @ [Status ''Playback finished.''])"
proof -
  let ?g = "g\<lparr>playing' := True, stop_play_event := False\<rparr>"
  let ?ews = "zip (events (macro' g)) (waits speed (events (macro' g)))"
  have "play_loop' L j V 0 ?g ?ews = (?g, steps' L j V 0 ?ews)"
    using assms(2) by (intro play_loop'_quiet) (simp_all add: waits_length)
  then show ?thesis
    using assms(1) by (simp add: play_once_def)
qed


section \<open>Playback: cancellation\<close>






section \<open>Playback: the empty macro\<close>

text \<open>
  C9. Playing a macro without events, in either variant, hands the status sink the
  nothing-to-play message and does nothing else: no wait, no controller call, and the
  state that comes back is the state that went in, so the playing flag is not raised and
  the stop event is not cleared.
\<close>

theorem play_empty_macro:
  "play L p (m\<lparr>events := []\<rparr>) speed jitter_px V = (p, [Status ''Nothing to play.''])
   \<and> play_once L (g\<lparr>macro' := m\<lparr>events := []\<rparr>\<rparr>) speed jitter V
       = (g\<lparr>macro' := m\<lparr>events := []\<rparr>\<rparr>,
          [Status ''Nothing to play. Record or load a macro first.''])"
  by (simp add: play_def play_once_def)

theorem play_empty_macro_witness:
  "play lib0 idle \<lparr>events = []\<rparr> 1 0 (\<lambda>k. quiet) = (idle, [Status ''Nothing to play.''])
   \<and> playing (fst (play lib0 idle \<lparr>events = []\<rparr> 1 0 (\<lambda>k. quiet))) = False
   \<and> play_once lib0 globals_init 1 0 (\<lambda>k. quiet)
       = (globals_init, [Status ''Nothing to play. Record or load a macro first.''])"
  using play_empty_macro [of lib0 idle "\<lparr>events = []\<rparr>" 1 0 "\<lambda>k. quiet" globals_init 0]
  by (simp add: idle_def globals_init_def)

section \<open>Playback: wait precomputation\<close>

text \<open>
  C3, as the code has it. The wait before event \<open>i\<close> is the difference to the previous
  timestamp (0 before the first event) divided by \<open>max 1e-6 speed\<close>, and never negative;
  from speed \<open>1e-6\<close> upwards this is the quotient by the speed itself. Both playback
  functions wait exactly for these times in an undisturbed run (the script skips waits of
  zero). Events at 0, 1, 2 played at speed 2 wait 0, 1/2, 1/2. Only the head of the script's
  \<open>start_playback\<close> replaces a speed that is not positive by 1 before it calls \<open>play_once\<close>.
\<close>

theorem wait_precomputation:
  "(i < length es \<longrightarrow>
      waits speed es ! i =
        max 0 ((t (es ! i) - (if i = 0 then 0 else t (es ! (i - 1)))) / max (1 / 1000000) speed))
   \<and> (i < length es \<and> 1 / 1000000 \<le> speed \<longrightarrow> waits speed es ! i = spec_wait speed es i)
   \<and> (events m \<noteq> [] \<and> (\<forall>k < length (events m). undisturbed V k) \<longrightarrow>
        waited (snd (play L p m speed j V)) = waits speed (events m))
   \<and> (events (macro' g) \<noteq> [] \<and> (\<forall>k < length (events (macro' g)). undisturbed V k) \<longrightarrow>
        waited (snd (play_once L g speed j V))
          = filter (\<lambda>w. 0 < w) (waits speed (events (macro' g))))
   \<and> waits 2 [move_event 0 x y, move_event 1 x y, move_event 2 x y] = [0, 1 / 2, 1 / 2]
   \<and> fst (start_playback_params L sv lv jv)
       = (case float_of_str L sv of None \<Rightarrow> 1 | Some r \<Rightarrow> if r \<le> 0 then 1 else r)"
proof -
  have a: "i < length es \<Longrightarrow>
      waits speed es ! i =
        max 0 ((t (es ! i) - (if i = 0 then 0 else t (es ! (i - 1)))) / max (1 / 1000000) speed)"
    by (simp add: waits_def waits_from_nth)
  have b: "i < length es \<Longrightarrow> 1 / 1000000 \<le> speed \<Longrightarrow> waits speed es ! i = spec_wait speed es i"
  proof -
    assume i: "i < length es" and s: "1 / 1000000 \<le> speed"
    have "max (1 / 1000000) speed = speed" using s by simp
    moreover have "\<not> speed \<le> 0" using s by simp
    ultimately show ?thesis using a [OF i] by (simp add: spec_wait_def)
  qed
  have c: "events m \<noteq> [] \<Longrightarrow> (\<forall>k < length (events m). undisturbed V k) \<Longrightarrow>
        waited (snd (play L p m speed j V)) = waits speed (events m)"
    using waited_steps [of "waits speed (events m)" "events m" L j V 0]
    by (simp add: play_undisturbed waits_length waited_def)
  have d: "events (macro' g) \<noteq> [] \<Longrightarrow> (\<forall>k < length (events (macro' g)). undisturbed V k) \<Longrightarrow>
        waited (snd (play_once L g speed j V))
          = filter (\<lambda>w. 0 < w) (waits speed (events (macro' g)))"
    using waited_steps' [of "waits speed (events (macro' g))" "events (macro' g)" L j V 0]
    by (simp add: play_once_undisturbed waits_length waited_def)
  have e: "waits 2 [move_event 0 x y, move_event 1 x y, move_event 2 x y] = [0, 1 / 2, 1 / 2]"
    by (simp add: waits_def move_event_def)
  have f: "fst (start_playback_params L sv lv jv)
       = (case float_of_str L sv of None \<Rightarrow> 1 | Some r \<Rightarrow> if r \<le> 0 then 1 else r)"
    by (simp add: start_playback_params_def Let_def split: option.split)
  show ?thesis using a b c d e f by blast
qed

theorem wait_precomputation_witness:
  "1 < length (events sample_macro)
   \<and> waits 2 (events sample_macro) ! 1 = 1 / 2
   \<and> spec_wait 2 (events sample_macro) 1 = 1 / 2
   \<and> waited (snd (play lib0 idle sample_macro 2 0 (\<lambda>k. quiet))) = [0, 1 / 2, 1 / 2]
   \<and> waited (snd (play_once lib0 (globals_init\<lparr>macro' := sample_macro\<rparr>) 2 0 (\<lambda>k. quiet)))
       = [1 / 2, 1 / 2]
   \<and> fst (start_playback_params (lib0\<lparr>float_of_str := (\<lambda>s. Some 0)\<rparr>) ''0'' ''1'' ''0'') = 1"
  using wait_precomputation [where i = 1 and es = "events sample_macro" and speed = 2
      and m = sample_macro and V = "\<lambda>k. quiet" and L = lib0 and p = idle and j = 0
      and g = "globals_init\<lparr>macro' := sample_macro\<rparr>"]
    wait_precomputation [where L = "lib0\<lparr>float_of_str := (\<lambda>s. Some 0)\<rparr>" and sv = "''0''"
      and lv = "''1''" and jv = "''0''"]
  by (simp add: sample_macro_def waits_def spec_wait_def undisturbed_def quiet_def
      move_event_def click_event_def)

text \<open>
  The claim as worded fails at speed 0: the specification's wait for the second of two
  events one second apart is 1 (speed replaced by 1), and a rejected call would not play
  at all; the code plays and waits a million seconds.
\<close>

theorem wait_precomputation_counterexample:
  "waits 0 [move_event 0 1 1, move_event 1 2 2] ! 1 = 1000000
   \<and> spec_wait 0 [move_event 0 1 1, move_event 1 2 2] 1 = 1
   \<and> snd (play lib0 idle \<lparr>events = [move_event 0 1 1, move_event 1 2 2]\<rparr> 0 0 (\<lambda>k. quiet))
       = [Status ''Playing... (ESC to stop)'', Wait 0, Position 1 1, Wait 1000000,
          Position 2 2, Status ''Playback finished.'']"
  by (simp add: waits_def spec_wait_def play_def move_event_def quiet_def idle_def
      Player_stop_def emit_guarded_def emit_def xy_of_def seq_def jittered_def platform_def)

section \<open>Playback: failures of single events\<close>







section \<open>Playback: decoding the button of a click\<close>

text \<open>
  C10. On every string both button decoders return a button, and on every string other
  than \<^verbatim>\<open>left\<close>, \<^verbatim>\<open>right\<close> and \<^verbatim>\<open>middle\<close> they return the left button. A click event with
  such a button string, integer coordinates and a boolean \<^verbatim>\<open>pressed\<close> is therefore
  replayed, on a platform that accepts the calls, as the pointer position followed by a
  press or release of the left button, with no error report, in both variants.
\<close>

theorem button_default_left:
  "(\<exists>b. str_to_button (PStr s) = Inr b \<and> str_to_button' (PStr s) = Inr b)
   \<and> (s \<noteq> ''left'' \<and> s \<noteq> ''right'' \<and> s \<noteq> ''middle'' \<longrightarrow>
        str_to_button (PStr s) = Inr Button_left \<and> str_to_button' (PStr s) = Inr Button_left)
   \<and> (s \<noteq> ''left'' \<and> s \<noteq> ''right'' \<and> s \<noteq> ''middle''
        \<and> kind e = PStr ''click'' \<and> data e = PDict d
        \<and> map_of d ''x'' = Some (PInt x) \<and> map_of d ''y'' = Some (PInt y)
        \<and> map_of d ''button'' = Some (PStr s) \<and> map_of d ''pressed'' = Some (PBool b)
        \<and> (\<forall>a. \<not> rejects v a) \<longrightarrow>
        emit_guarded L j v e =
          [Position (fst (jittered j v (x, y))) (snd (jittered j v (x, y))),
           if b then Press Button_left else Release Button_left]
        \<and> emit_guarded' L j v e =
          [Position (fst (jittered j v (x, y))) (snd (jittered j v (x, y))),
           if b then Press Button_left else Release Button_left])"
  by (simp add: emit_guarded_def emit_def emit_guarded'_def emit'_def click_args_def
      click_args'_def xy_of_def seq_def platform_def Let_def)

theorem button_default_left_witness:
  "str_to_button (PStr ''Button.x1'') = Inr Button_left
   \<and> str_to_button' (PStr ''Button.x1'') = Inr Button_left
   \<and> emit_guarded lib0 0 quiet (click_event 0 7 8 ''Button.x1'' True)
       = [Position 7 8, Press Button_left]
   \<and> emit_guarded' lib0 0 quiet (click_event 0 7 8 ''Button.x1'' False)
       = [Position 7 8, Release Button_left]"
  using button_default_left [where s = "''Button.x1''" and e = "click_event 0 7 8 ''Button.x1'' True"
      and d = "[(''x'', PInt 7), (''y'', PInt 8), (''button'', PStr ''Button.x1''),
                (''pressed'', PBool True)]" and x = 7 and y = 8 and b = True and v = quiet
      and L = lib0 and j = 0]
    button_default_left [where s = "''Button.x1''" and e = "click_event 0 7 8 ''Button.x1'' False"
      and d = "[(''x'', PInt 7), (''y'', PInt 8), (''button'', PStr ''Button.x1''),
                (''pressed'', PBool False)]" and x = 7 and y = 8 and b = False and v = quiet
      and L = lib0 and j = 0]
  by (simp add: click_event_def quiet_def jittered_def)


section \<open>Saving and loading\<close>

lemma load_event_asdict: "load_event L (asdict e) = Inr e"
  by (simp add: load_event_def asdict_def seq_def)

lemma load_events_asdict: "load_events L (map asdict es) = Inr es"
  by (induction es) (simp_all add: load_event_asdict seq_def)

lemma events_of_payload_payload: "events_of_payload L (payload m) = Inr (events m)"
  by (simp add: events_of_payload_def payload_def seq_def load_events_asdict)

lemma ui_load_ui_save:
  assumes "events (macro_ref a) \<noteq> []" and "path \<noteq> []"
  shows "snd (ui_load L b (snd (ui_save a fs path)) path) = None"
    and "macro_ref (fst (ui_load L b (snd (ui_save a fs path)) path)) = macro_ref a"
  using assms
  by (simp_all add: ui_load_def ui_save_def read_json_def seq_def events_of_payload_payload
      set_status_def Let_def)

lemma load_macro_save_macro:
  assumes "events (macro' g) \<noteq> []" and "path \<noteq> []"
  shows "snd (load_macro L h (fst (save_macro g fs path)) path) = None"
    and "macro' (fst (fst (load_macro L h (fst (save_macro g fs path)) path))) = macro' g"
  using assms
  by (simp_all add: load_macro_def save_macro_def read_json_def seq_def events_of_payload_payload)

lemma str_to_key_char: "str_to_key L (PStr (key_to_str (KeyCode_char c))) = Inr (Some (Char c))"
  by simp

lemma str_to_key_named:
  "name \<in> key_names L \<Longrightarrow> name \<noteq> [] \<Longrightarrow>
   str_to_key L (PStr (key_to_str (Key name))) = Inr (Some (Key name))"
  by simp

lemma str_to_key'_char: "str_to_key' L (PStr (key_to_str' (KeyCode_char c))) = Inr (Some (Char c))"
  by simp

lemma str_to_key'_named:
  "name \<in> key_names L \<Longrightarrow> str_to_key' L (PStr (key_to_str' (Key name))) = Inr (Some (Key name))"
  by simp

lemma key_to_str_distinct: "key_to_str (KeyCode_char c) \<noteq> key_to_str (Key name)"
  by simp

text \<open>
  C1. Reading back the document written for a macro yields the events of that macro,
  whatever their kinds and payloads. A save that writes a file (the macro is not empty and
  a path was chosen) followed by a load of that file leaves the saved macro in memory and
  raises nothing, in both variants. The key strings decode to the key they were written
  for: a character key to its character, a named key of the platform to that key; the two
  encodings never coincide, the character f is written \<^verbatim>\<open>char:f\<close> and the key F1
  \<^verbatim>\<open>key:f1\<close>.
\<close>

theorem round_trip:
  "events_of_payload L (payload m) = Inr (events m)
   \<and> (events (macro_ref a) \<noteq> [] \<and> path \<noteq> [] \<longrightarrow>
        snd (ui_load L b (snd (ui_save a fs path)) path) = None
        \<and> macro_ref (fst (ui_load L b (snd (ui_save a fs path)) path)) = macro_ref a)
   \<and> (events (macro' g) \<noteq> [] \<and> path \<noteq> [] \<longrightarrow>
        snd (load_macro L h (fst (save_macro g fs path)) path) = None
        \<and> macro' (fst (fst (load_macro L h (fst (save_macro g fs path)) path))) = macro' g)
   \<and> str_to_key L (PStr (key_to_str (KeyCode_char c))) = Inr (Some (Char c))
   \<and> (name \<in> key_names L \<and> name \<noteq> [] \<longrightarrow>
        str_to_key L (PStr (key_to_str (Key name))) = Inr (Some (Key name)))
   \<and> str_to_key' L (PStr (key_to_str' (KeyCode_char c))) = Inr (Some (Char c))
   \<and> (name \<in> key_names L \<longrightarrow>
        str_to_key' L (PStr (key_to_str' (Key name))) = Inr (Some (Key name)))
   \<and> key_to_str (KeyCode_char c) \<noteq> key_to_str (Key name)
   \<and> key_to_str' (KeyCode_char c) \<noteq> key_to_str' (Key name)
   \<and> key_to_str (KeyCode_char ''f'') = ''char:f'' \<and> key_to_str (Key ''f1'') = ''key:f1''"
  using events_of_payload_payload [of L m] ui_load_ui_save [of a path L b fs]
    load_macro_save_macro [of g path L h fs]
  by simp

theorem round_trip_witness:
  "events fkeys_macro = [key_event 0 ''kpress'' ''char:f'', key_event 1 ''kpress'' ''key:f1'']
   \<and> events_of_payload lib0 (payload fkeys_macro) = Inr (events fkeys_macro)
   \<and> macro_ref (fst (ui_load lib0 (app_init DEFAULT_KEYS)
         (snd (ui_save ((app_init DEFAULT_KEYS)\<lparr>macro_ref := fkeys_macro\<rparr>) Map.empty ''m.json''))
         ''m.json'')) = fkeys_macro
   \<and> macro' (fst (fst (load_macro lib0 globals_init
         (fst (save_macro (globals_init\<lparr>macro' := fkeys_macro\<rparr>) Map.empty ''m.json''))
         ''m.json''))) = fkeys_macro
   \<and> str_to_key lib0 (PStr ''char:f'') = Inr (Some (Char ''f''))
   \<and> str_to_key lib0 (PStr ''key:f1'') = Inr (Some (Key ''f1''))
   \<and> str_to_key' lib0 (PStr ''key:Key.f1'') = Inr (Some (Key ''f1''))"
  using round_trip [where L = lib0 and m = fkeys_macro
      and a = "(app_init DEFAULT_KEYS)\<lparr>macro_ref := fkeys_macro\<rparr>" and b = "app_init DEFAULT_KEYS"
      and path = "''m.json''" and fs = Map.empty and g = "globals_init\<lparr>macro' := fkeys_macro\<rparr>"
      and h = globals_init and c = "''f''" and name = "''f1''"]
  by (simp add: fkeys_macro_def lib0_def globals_init_def)

lemma load_event_missing:
  "map_of f ''t'' = None \<or> map_of f ''kind'' = None \<or> map_of f ''data'' = None \<Longrightarrow>
   \<exists>er. load_event L (PDict f) = Inl er"
  by (auto simp: load_event_def seq_def split: option.splits sum.splits)

lemma load_events_all:
  "load_events L es = Inr evs \<Longrightarrow> ev \<in> set es \<Longrightarrow> \<exists>e. load_event L ev = Inr e"
proof (induction es arbitrary: evs)
  case Nil
  then show ?case by simp
next
  case (Cons x xs)
  from Cons.prems(1) obtain e rest where x: "load_event L x = Inr e"
    and xs: "load_events L xs = Inr rest"
    by (auto simp: seq_def split: sum.splits)
  show ?case
  proof (cases "ev = x")
    case True
    with x show ?thesis by blast
  next
    case False
    with Cons.prems(2) have "ev \<in> set xs" by simp
    from Cons.IH [OF xs this] show ?thesis .
  qed
qed

lemma events_of_payload_missing:
  assumes "map_of d ''events'' = Some (PList es)" and "PDict f \<in> set es"
    and "map_of f ''t'' = None \<or> map_of f ''kind'' = None \<or> map_of f ''data'' = None"
  shows "\<exists>er. events_of_payload L (PDict d) = Inl er"
proof (cases "load_events L es")
  case (Inl er)
  then show ?thesis using assms(1) by (simp add: events_of_payload_def seq_def)
next
  case (Inr evs)
  from load_events_all [OF Inr assms(2)] load_event_missing [OF assms(3), of L]
  show ?thesis by auto
qed

lemma ui_load_atomic: "snd (ui_load L a fs path) = Some er \<Longrightarrow> fst (ui_load L a fs path) = a"
  by (auto simp: ui_load_def split: if_splits sum.splits)

lemma load_macro_atomic:
  "snd (load_macro L g fs path) = Some er \<Longrightarrow> fst (load_macro L g fs path) = (g, [])"
  by (auto simp: load_macro_def split: if_splits sum.splits)

text \<open>
  C8, as the code has it. A load that raises leaves the whole state as it was, the
  in-memory macro included, in both variants. A load raises when the file is not JSON and
  when some event of the document is a dictionary without \<^verbatim>\<open>t\<close>, \<^verbatim>\<open>kind\<close> or \<^verbatim>\<open>data\<close>.
  The kind itself is not examined: an event with a float \<^verbatim>\<open>t\<close> loads with whatever kind
  and data it carries, and playback emits nothing for an event whose kind is none of the
  five known ones.
\<close>

theorem load_errors:
  "(snd (ui_load L a fs path) = Some er \<longrightarrow> fst (ui_load L a fs path) = a)
   \<and> (snd (load_macro L g fs path) = Some er \<longrightarrow> fst (load_macro L g fs path) = (g, []))
   \<and> (path \<noteq> [] \<and> fs path = Some (Json (PDict d)) \<and> map_of d ''events'' = Some (PList es)
        \<and> PDict f \<in> set es
        \<and> (map_of f ''t'' = None \<or> map_of f ''kind'' = None \<or> map_of f ''data'' = None) \<longrightarrow>
        (\<exists>x. snd (ui_load L a fs path) = Some x) \<and> (\<exists>x. snd (load_macro L g fs path) = Some x))
   \<and> (path \<noteq> [] \<and> fs path = Some Garbage \<longrightarrow>
        snd (ui_load L a fs path) = Some JSONDecodeError
        \<and> snd (load_macro L g fs path) = Some JSONDecodeError)
   \<and> load_event L (PDict [(''t'', PFloat r), (''kind'', k), (''data'', v)])
       = Inr \<lparr>t = r, kind = k, data = v\<rparr>
   \<and> (kind e \<noteq> PStr ''move'' \<and> kind e \<noteq> PStr ''click'' \<and> kind e \<noteq> PStr ''scroll''
        \<and> kind e \<noteq> PStr ''kpress'' \<and> kind e \<noteq> PStr ''krelease'' \<longrightarrow>
        emit_guarded L j w e = [] \<and> emit_guarded' L j w e = [])"
proof -
  have c: "path \<noteq> [] \<and> fs path = Some (Json (PDict d)) \<and> map_of d ''events'' = Some (PList es)
        \<and> PDict f \<in> set es
        \<and> (map_of f ''t'' = None \<or> map_of f ''kind'' = None \<or> map_of f ''data'' = None) \<longrightarrow>
        (\<exists>x. snd (ui_load L a fs path) = Some x) \<and> (\<exists>x. snd (load_macro L g fs path) = Some x)"
  proof (intro impI)
    assume h: "path \<noteq> [] \<and> fs path = Some (Json (PDict d)) \<and> map_of d ''events'' = Some (PList es)
        \<and> PDict f \<in> set es
        \<and> (map_of f ''t'' = None \<or> map_of f ''kind'' = None \<or> map_of f ''data'' = None)"
    then obtain x where "events_of_payload L (PDict d) = Inl x"
      using events_of_payload_missing [of d es f L] by blast
    with h show "(\<exists>x. snd (ui_load L a fs path) = Some x) \<and> (\<exists>x. snd (load_macro L g fs path) = Some x)"
      by (simp add: ui_load_def load_macro_def read_json_def seq_def)
  qed
  have d: "path \<noteq> [] \<and> fs path = Some Garbage \<longrightarrow>
        snd (ui_load L a fs path) = Some JSONDecodeError
        \<and> snd (load_macro L g fs path) = Some JSONDecodeError"
    by (simp add: ui_load_def load_macro_def read_json_def seq_def)
  have e: "load_event L (PDict [(''t'', PFloat r), (''kind'', k), (''data'', v)])
       = Inr \<lparr>t = r, kind = k, data = v\<rparr>"
    by (simp add: load_event_def seq_def)
  have f: "kind e \<noteq> PStr ''move'' \<and> kind e \<noteq> PStr ''click'' \<and> kind e \<noteq> PStr ''scroll''
        \<and> kind e \<noteq> PStr ''kpress'' \<and> kind e \<noteq> PStr ''krelease'' \<longrightarrow>
        emit_guarded L j w e = [] \<and> emit_guarded' L j w e = []"
    by (simp add: emit_guarded_def emit_def emit_guarded'_def emit'_def)
  show ?thesis
    using ui_load_atomic [of L a fs path er] load_macro_atomic [of L g fs path er] c d e f
    by blast
qed

theorem load_errors_witness:
  "map_of [(''t'', PFloat 0), (''data'', PDict [])] ''kind'' = None
   \<and> (\<exists>x. snd (ui_load lib0 loaded_app [''m.json'' \<mapsto> Json doc_missing_kind] ''m.json'') = Some x)
   \<and> snd (ui_load lib0 loaded_app [''m.json'' \<mapsto> Json doc_missing_kind] ''m.json'') = Some KeyError
   \<and> fst (ui_load lib0 loaded_app [''m.json'' \<mapsto> Json doc_missing_kind] ''m.json'') = loaded_app
   \<and> macro_ref (fst (ui_load lib0 loaded_app [''m.json'' \<mapsto> Json doc_missing_kind] ''m.json''))
       = sample_macro
   \<and> snd (load_macro lib0 loaded_globals [''m.json'' \<mapsto> Json doc_missing_kind] ''m.json'')
       = Some KeyError
   \<and> fst (load_macro lib0 loaded_globals [''m.json'' \<mapsto> Json doc_missing_kind] ''m.json'')
       = (loaded_globals, [])
   \<and> snd (ui_load lib0 loaded_app [''m.json'' \<mapsto> Garbage] ''m.json'') = Some JSONDecodeError
   \<and> fst (ui_load lib0 loaded_app [''m.json'' \<mapsto> Garbage] ''m.json'') = loaded_app
   \<and> emit_guarded lib0 0 quiet \<lparr>t = 0, kind = PStr ''teleport'', data = PDict []\<rparr> = []"
proof -
  let ?fs = "[''m.json'' \<mapsto> Json doc_missing_kind]"
  have k: "snd (ui_load lib0 loaded_app ?fs ''m.json'') = Some KeyError"
    by (simp add: ui_load_def read_json_def seq_def events_of_payload_def load_event_def
        doc_missing_kind_def)
  have k': "snd (load_macro lib0 loaded_globals ?fs ''m.json'') = Some KeyError"
    by (simp add: load_macro_def read_json_def seq_def events_of_payload_def load_event_def
        doc_missing_kind_def)
  note le = load_errors [where L = lib0 and a = loaded_app and g = loaded_globals and fs = ?fs
      and path = "''m.json''" and er = KeyError
      and d = "[(''version'', PInt 1),
                (''events'', PList [PDict [(''t'', PFloat 0), (''data'', PDict [])]])]"
      and es = "[PDict [(''t'', PFloat 0), (''data'', PDict [])]]"
      and f = "[(''t'', PFloat 0), (''data'', PDict [])]"]
  note lg = load_errors [where L = lib0 and a = loaded_app and g = loaded_globals
      and fs = "[''m.json'' \<mapsto> Garbage]" and path = "''m.json''" and er = JSONDecodeError]
  note lk = load_errors [where L = lib0 and j = 0 and w = quiet
      and e = "\<lparr>t = 0, kind = PStr ''teleport'', data = PDict []\<rparr>"]
  have x: "\<exists>x. snd (ui_load lib0 loaded_app ?fs ''m.json'') = Some x"
    using le by (simp add: doc_missing_kind_def)
  have a: "fst (ui_load lib0 loaded_app ?fs ''m.json'') = loaded_app"
    using le k by blast
  have a': "fst (load_macro lib0 loaded_globals ?fs ''m.json'') = (loaded_globals, [])"
    using le k' by blast
  have g: "snd (ui_load lib0 loaded_app [''m.json'' \<mapsto> Garbage] ''m.json'') = Some JSONDecodeError"
    using lg by simp
  have g2: "fst (ui_load lib0 loaded_app [''m.json'' \<mapsto> Garbage] ''m.json'') = loaded_app"
    using lg g by blast
  have u: "emit_guarded lib0 0 quiet \<lparr>t = 0, kind = PStr ''teleport'', data = PDict []\<rparr> = []"
    using lk by simp
  have m: "macro_ref loaded_app = sample_macro"
    by (simp add: loaded_app_def)
  show ?thesis using x k k' a a' g g2 u m by simp
qed

text \<open>
  The claim as worded fails for an unrecognized kind: a document whose only event has the
  kind \<^verbatim>\<open>teleport\<close> loads without error and replaces the macro in memory.
\<close>

theorem load_errors_counterexample:
  "snd (ui_load lib0 loaded_app [''m.json'' \<mapsto> Json doc_unknown_kind] ''m.json'') = None
   \<and> macro_ref (fst (ui_load lib0 loaded_app [''m.json'' \<mapsto> Json doc_unknown_kind] ''m.json''))
       = \<lparr>events = [\<lparr>t = 0, kind = PStr ''teleport'', data = PDict []\<rparr>]\<rparr>
   \<and> snd (load_macro lib0 loaded_globals [''m.json'' \<mapsto> Json doc_unknown_kind] ''m.json'') = None
   \<and> macro' (fst (fst (load_macro lib0 loaded_globals [''m.json'' \<mapsto> Json doc_unknown_kind]
         ''m.json'')))
       = \<lparr>events = [\<lparr>t = 0, kind = PStr ''teleport'', data = PDict []\<rparr>]\<rparr>"
  by (simp add: ui_load_def load_macro_def read_json_def seq_def events_of_payload_def
      load_event_def doc_unknown_kind_def set_status_def)

section \<open>Recording: timestamps\<close>

lemma now_rel_started:
  "t0 c = Some z \<Longrightarrow> z \<noteq> 0 \<Longrightarrow> now_rel pc c = (pc (ticks c) - z, c\<lparr>ticks := Suc (ticks c)\<rparr>)"
  by (simp add: now_rel_def Let_def)

lemma recorder_inv_init: "recorder_inv pc (Recorder_init iv)"
  by (simp add: recorder_inv_def Recorder_init_def)

lemma recorder_inv_start:
  assumes "clock_ok pc" and "recorder_inv pc r"
  shows "recorder_inv pc (Recorder_start pc r)"
proof (cases "recording r")
  case True
  then show ?thesis using assms(2) by (simp add: Recorder_start_def)
next
  case False
  have "pc (ticks (clock r)) \<noteq> 0"
    using assms(1) by (simp add: clock_ok_def less_imp_neq [THEN not_sym])
  then show ?thesis
    using False by (simp add: Recorder_start_def recorder_inv_def RecClock_start_def)
qed

lemma recorder_inv_stop: "recorder_inv pc r \<Longrightarrow> recorder_inv pc (Recorder_stop r)"
  by (simp add: recorder_inv_def Recorder_stop_def)

text \<open>A callback that reads the clock and does not append.\<close>

lemma recorder_inv_tick:
  assumes "clock_ok pc" and "recorder_inv pc r" and "recording r" and "t0 (clock r) = Some z"
  shows "recorder_inv pc (r\<lparr>clock := (clock r)\<lparr>ticks := Suc (ticks (clock r))\<rparr>\<rparr>)"
proof -
  have "pc (ticks (clock r)) \<le> pc (Suc (ticks (clock r)))"
    using assms(1) by (simp add: clock_ok_def mono_def)
  then show ?thesis
    using assms(2,3,4) by (fastforce simp: recorder_inv_def)
qed

text \<open>A callback that reads the clock and appends an event stamped with the reading.\<close>

lemma recorder_inv_append:
  assumes "clock_ok pc" and "recorder_inv pc r" and "recording r" and "t0 (clock r) = Some z"
    and "recording r' = recording r" and "clock r' = (clock r)\<lparr>ticks := Suc (ticks (clock r))\<rparr>"
    and "macro r' = macro r" and "t e = pc (ticks (clock r)) - z"
  shows "recorder_inv pc (append_event r' e)"
proof -
  have le: "pc (ticks (clock r)) \<le> pc (Suc (ticks (clock r)))"
    using assms(1) by (simp add: clock_ok_def mono_def)
  have old: "\<forall>x \<in> set (events (macro r)). t x \<le> pc (ticks (clock r)) - z"
    using assms(2,3,4) by (auto simp: recorder_inv_def)
  have z: "z \<noteq> 0" using assms(2,3,4) by (auto simp: recorder_inv_def)
  have "sorted (map t (events (macro r) @ [e]))"
    using assms(2,8) old by (auto simp: recorder_inv_def sorted_append)
  moreover have "\<forall>x \<in> set (events (macro r) @ [e]). t x \<le> pc (Suc (ticks (clock r))) - z"
    using old le assms(8) by fastforce
  ultimately show ?thesis
    using assms(3,4,5,6,7) z by (simp add: recorder_inv_def append_event_def)
qed

lemma recorder_inv_call:
  assumes "clock_ok pc" and "recorder_inv pc r"
  shows "recorder_inv pc (Recorder_call pc r c)"
proof (cases "recording r")
  case False
  then show ?thesis
    using assms
    by (cases c)
      (simp_all add: recorder_inv_start recorder_inv_stop Recorder_on_move_def
        Recorder_on_click_def Recorder_on_scroll_def Recorder_on_key_press_def
        Recorder_on_key_release_def)
next
  case True
  then obtain z where z: "t0 (clock r) = Some z" "z \<noteq> 0"
    using assms(2) by (auto simp: recorder_inv_def)
  note nr = now_rel_started [OF z, of pc]
  note tick = recorder_inv_tick [OF assms True z(1)]
  note app = recorder_inv_append [OF assms True z(1)]
  show ?thesis
  proof (cases c)
    case Start
    then show ?thesis using assms by (simp add: recorder_inv_start)
  next
    case Stop
    then show ?thesis using assms by (simp add: recorder_inv_stop)
  next
    case (Move x y)
    show ?thesis
      unfolding Move Recorder_call.simps Recorder_on_move_def
      using True tick by (auto simp: nr Let_def intro!: app)
  next
    case (Click x y b pressed)
    show ?thesis
      unfolding Click Recorder_call.simps Recorder_on_click_def
      using True by (auto simp: nr intro!: app)
  next
    case (Scrolled x y dx dy)
    show ?thesis
      unfolding Scrolled Recorder_call.simps Recorder_on_scroll_def
      using True by (auto simp: nr intro!: app)
  next
    case (Key_down k)
    show ?thesis
      unfolding Key_down Recorder_call.simps Recorder_on_key_press_def
      using True assms(2) by (auto simp: nr intro!: app)
  next
    case (Key_up k)
    show ?thesis
      unfolding Key_up Recorder_call.simps Recorder_on_key_release_def
      using True assms(2) by (auto simp: nr intro!: app)
  qed
qed

lemma recorder_inv_foldl:
  "clock_ok pc \<Longrightarrow> recorder_inv pc r \<Longrightarrow> recorder_inv pc (foldl (Recorder_call pc) r cs)"
  by (induction cs arbitrary: r) (simp_all add: recorder_inv_call)

lemma recorder_inv_run:
  "clock_ok pc \<Longrightarrow> recorder_inv pc (Recorder_run pc (Recorder_init iv) cs)"
  by (simp add: Recorder_run_def recorder_inv_foldl recorder_inv_init)


text \<open>
  C2. Whatever calls of start, stop and the five listener callbacks the recorder receives,
  in whatever order, the timestamps of the events of its macro never decrease from one
  event to the next, provided the performance counter is monotonic with positive readings.
\<close>

theorem monotonicity:
  "clock_ok pc \<and> Suc i < length (events (macro (Recorder_run pc (Recorder_init iv) cs))) \<longrightarrow>
     t (events (macro (Recorder_run pc (Recorder_init iv) cs)) ! i)
       \<le> t (events (macro (Recorder_run pc (Recorder_init iv) cs)) ! Suc i)"
proof (intro impI, elim conjE)
  let ?es = "events (macro (Recorder_run pc (Recorder_init iv) cs))"
  assume ok: "clock_ok pc" and i: "Suc i < length ?es"
  have "sorted (map t ?es)"
    using recorder_inv_run [OF ok, of iv cs] by (simp add: recorder_inv_def)
  then have "map t ?es ! i \<le> map t ?es ! Suc i"
    using i by (intro sorted_nth_mono) simp_all
  then show "t (?es ! i) \<le> t (?es ! Suc i)"
    using i by simp
qed

lemma clock_ok_pc0: "clock_ok pc0"
  by (auto simp: clock_ok_def mono_def pc0_def)

lemma sample_session: "events (macro (Recorder_run pc0 (Recorder_init (1 / 100))
         [Start, Move (NInt 1) (NInt 1), Click (NInt 1) (NInt 1) Button_left True, Stop]))
     = [move_event (20 / 1000) 1 1, click_event (40 / 1000) 1 1 ''left'' True]"
  by (simp add: Recorder_run_def Recorder_init_def Recorder_start_def Recorder_stop_def
      Recorder_on_move_def Recorder_on_click_def RecClock_start_def now_rel_def append_event_def
      pc0_def move_event_def click_event_def Let_def same_pos_def)

theorem monotonicity_witness:
  "clock_ok pc0
   \<and> events (macro (Recorder_run pc0 (Recorder_init (1 / 100))
         [Start, Move (NInt 1) (NInt 1), Click (NInt 1) (NInt 1) Button_left True, Stop]))
       = [move_event (20 / 1000) 1 1, click_event (40 / 1000) 1 1 ''left'' True]
   \<and> t (events (macro (Recorder_run pc0 (Recorder_init (1 / 100))
         [Start, Move (NInt 1) (NInt 1), Click (NInt 1) (NInt 1) Button_left True, Stop])) ! 0)
       \<le> t (events (macro (Recorder_run pc0 (Recorder_init (1 / 100))
         [Start, Move (NInt 1) (NInt 1), Click (NInt 1) (NInt 1) Button_left True, Stop])) ! Suc 0)"
  using monotonicity [of pc0 0 "1 / 100" "[Start, Move (NInt 1) (NInt 1), Click (NInt 1) (NInt 1) Button_left True, Stop]"]
    clock_ok_pc0 sample_session
  by simp


section \<open>Recording: move throttling\<close>

lemma Recorder_on_move_events:
  assumes "recording r" and "t0 (clock r) = Some z" and "z \<noteq> 0"
  shows "events (macro (Recorder_on_move pc r x y)) =
     (if move_min_interval r \<le> pc (ticks (clock r)) - z - last_move_t r
         \<and> \<not> same_pos (last_pos r) x y
      then events (macro r) @ [move_event (pc (ticks (clock r)) - z) (num_int x) (num_int y)]
      else events (macro r))"
  using assms
  by (simp add: Recorder_on_move_def now_rel_started Let_def append_event_def move_event_def
      not_less)

lemma Recorder_on_move_state:
  assumes "recording r" and "t0 (clock r) = Some z" and "z \<noteq> 0"
  shows "(last_move_t (Recorder_on_move pc r x y), last_pos (Recorder_on_move pc r x y)) =
     (if move_min_interval r \<le> pc (ticks (clock r)) - z - last_move_t r
         \<and> \<not> same_pos (last_pos r) x y
      then (pc (ticks (clock r)) - z, Some (x, y))
      else (last_move_t r, last_pos r))"
  using assms
  by (simp add: Recorder_on_move_def now_rel_started Let_def append_event_def not_less)

lemma spaced_snoc:
  "spaced iv (ms @ [e]) \<longleftrightarrow> spaced iv ms \<and> (ms = [] \<or> iv \<le> t e - t (last ms))"
proof (induction iv ms rule: spaced.induct)
  case (1 iv a b rest)
  then show ?case by simp
next
  case (2 iv a)
  then show ?case by simp
next
  case (3 iv)
  then show ?case by simp
qed

lemma no_repeat_snoc:
  "no_repeat (ms @ [e]) \<longleftrightarrow> no_repeat ms \<and> (ms = [] \<or> data (last ms) \<noteq> data e)"
proof (induction ms rule: no_repeat.induct)
  case (1 a b rest)
  then show ?case by simp
next
  case (2 a)
  then show ?case by simp
next
  case 3
  then show ?case by simp
qed

lemma moves_snoc:
  "moves (es @ [e]) = (if kind e = PStr ''move'' then moves es @ [e] else moves es)"
  by (simp add: moves_def)

lemma integral_differ:
  assumes "integral a" and "integral b" and "integral x" and "integral y"
    and "\<not> same_pos (Some (a, b)) x y"
  shows "num_int a \<noteq> num_int x \<or> num_int b \<noteq> num_int y"
proof (rule ccontr)
  assume "\<not> (num_int a \<noteq> num_int x \<or> num_int b \<noteq> num_int y)"
  then have eq: "num_int a = num_int x" "num_int b = num_int y" by blast+
  have "num_val a = num_val x"
    using assms(1,3) eq(1) unfolding integral_def by simp
  moreover have "num_val b = num_val y"
    using assms(2,4) eq(2) unfolding integral_def by simp
  ultimately have "same_pos (Some (a, b)) x y"
    unfolding same_pos_def by simp
  with assms(5) show False by simp
qed

lemma num_py_val: "num_py u = num_py v \<Longrightarrow> num_val u = num_val v"
  by (cases u; cases v) simp_all

lemma num_py_differ:
  assumes "\<not> same_pos (Some (a, b)) x y"
  shows "num_py a \<noteq> num_py x \<or> num_py b \<noteq> num_py y"
proof (rule ccontr)
  assume n: "\<not> (num_py a \<noteq> num_py x \<or> num_py b \<noteq> num_py y)"
  from n have e1: "num_py a = num_py x" by blast
  from n have e2: "num_py b = num_py y" by blast
  from e1 have v1: "num_val a = num_val x" by (rule num_py_val)
  from e2 have v2: "num_val b = num_val y" by (rule num_py_val)
  from v1 v2 have "same_pos (Some (a, b)) x y"
    unfolding same_pos_def by simp
  with assms show False by blast
qed

subsection \<open>recorder.py\<close>

lemma throttle_inv_init: "throttle_inv (Recorder_init iv)"
  by (simp add: throttle_inv_def Recorder_init_def moves_def)

lemma throttle_inv_other:
  assumes "throttle_inv r" and "kind e \<noteq> PStr ''move''"
  shows "throttle_inv (append_event (r\<lparr>clock := c\<rparr>) e)"
  using assms by (simp add: throttle_inv_def append_event_def moves_snoc)

lemma throttle_inv_clock: "throttle_inv r \<Longrightarrow> throttle_inv (r\<lparr>clock := c\<rparr>)"
  by (simp add: throttle_inv_def)

lemma throttle_inv_move:
  assumes "throttle_inv r" and "recording r"
    and "\<not> tm - last_move_t r < move_min_interval r"
  shows "throttle_inv (append_event (r\<lparr>clock := c, last_move_t := tm, last_pos := Some (x, y)\<rparr>)
           \<lparr>t = tm, kind = PStr ''move'',
            data = PDict [(''x'', PInt (num_int x)), (''y'', PInt (num_int y))]\<rparr>)"
  using assms
  by (auto simp: throttle_inv_def append_event_def moves_snoc spaced_snoc)

lemma throttle_inv_call:
  assumes "throttle_inv r"
  shows "throttle_inv (Recorder_call pc r c)"
proof (cases c)
  case Start
  then show ?thesis
    using assms by (simp add: Recorder_start_def throttle_inv_def moves_def)
next
  case Stop
  then show ?thesis
    using assms by (simp add: Recorder_stop_def throttle_inv_def)
next
  case (Move x y)
  show ?thesis
  proof (cases "recording r")
    case False
    then show ?thesis using assms by (simp add: Move Recorder_on_move_def)
  next
    case True
    obtain tm c where nr: "now_rel pc (clock r) = (tm, c)" by (cases "now_rel pc (clock r)")
    have i1: "throttle_inv (r\<lparr>clock := c\<rparr>)" using assms by (rule throttle_inv_clock)
    have mv: "\<not> tm - last_move_t r < move_min_interval r \<Longrightarrow>
        throttle_inv (append_event (r\<lparr>clock := c, last_move_t := tm, last_pos := Some (x, y)\<rparr>)
           \<lparr>t = tm, kind = PStr ''move'',
            data = PDict [(''x'', PInt (num_int x)), (''y'', PInt (num_int y))]\<rparr>)"
      using assms True by (rule throttle_inv_move)
    show ?thesis
      using True nr i1 mv by (simp add: Move Recorder_on_move_def Let_def)
  qed
next
  case (Click x y b pressed)
  show ?thesis
    unfolding Click Recorder_call.simps Recorder_on_click_def
    using assms by (auto simp: throttle_inv_other split: prod.splits)
next
  case (Scrolled x y dx dy)
  show ?thesis
    unfolding Scrolled Recorder_call.simps Recorder_on_scroll_def
    using assms by (auto simp: throttle_inv_other split: prod.splits)
next
  case (Key_down k)
  show ?thesis
    unfolding Key_down Recorder_call.simps Recorder_on_key_press_def
    using assms by (auto simp: throttle_inv_other split: prod.splits)
next
  case (Key_up k)
  show ?thesis
    unfolding Key_up Recorder_call.simps Recorder_on_key_release_def
    using assms by (auto simp: throttle_inv_other split: prod.splits)
qed

lemma throttle_inv_run: "throttle_inv (Recorder_run pc (Recorder_init iv) cs)"
proof -
  have "throttle_inv r \<Longrightarrow> throttle_inv (foldl (Recorder_call pc) r cs)" for r
    by (induction cs arbitrary: r) (simp_all add: throttle_inv_call)
  then show ?thesis
    by (simp add: Recorder_run_def throttle_inv_init)
qed

lemma interval_call: "move_min_interval (Recorder_call pc r c) = move_min_interval r"
  by (cases c)
    (auto simp: Recorder_start_def Recorder_stop_def Recorder_on_move_def Recorder_on_click_def
      Recorder_on_scroll_def Recorder_on_key_press_def Recorder_on_key_release_def
      append_event_def Let_def split: prod.splits)

lemma interval_run: "move_min_interval (Recorder_run pc (Recorder_init iv) cs) = iv"
proof -
  have "move_min_interval (foldl (Recorder_call pc) r cs) = move_min_interval r" for r
    by (induction cs arbitrary: r) (simp_all add: interval_call)
  then show ?thesis
    by (simp add: Recorder_run_def Recorder_init_def)
qed

lemma recorder_moves_spaced:
  "spaced iv (moves (events (macro (Recorder_run pc (Recorder_init iv) cs))))"
  using throttle_inv_run [of pc iv cs] by (simp add: throttle_inv_def interval_run)

lemma repeat_inv_init: "repeat_inv (Recorder_init iv)"
  by (simp add: repeat_inv_def Recorder_init_def moves_def)

lemma repeat_inv_other:
  assumes "repeat_inv r" and "kind e \<noteq> PStr ''move''"
  shows "repeat_inv (append_event (r\<lparr>clock := c\<rparr>) e)"
  using assms by (simp add: repeat_inv_def append_event_def moves_snoc)

lemma repeat_inv_clock: "repeat_inv r \<Longrightarrow> repeat_inv (r\<lparr>clock := c\<rparr>)"
  by (simp add: repeat_inv_def)

lemma repeat_inv_move:
  assumes "repeat_inv r" and "recording r" and "integral x" and "integral y"
    and "\<not> same_pos (last_pos r) x y"
  shows "repeat_inv (append_event (r\<lparr>clock := c, last_move_t := tm, last_pos := Some (x, y)\<rparr>)
           \<lparr>t = tm, kind = PStr ''move'',
            data = PDict [(''x'', PInt (num_int x)), (''y'', PInt (num_int y))]\<rparr>)"
proof (cases "moves (events (macro r)) = []")
  case True
  then show ?thesis
    using assms by (simp add: repeat_inv_def append_event_def moves_snoc)
next
  case False
  then obtain a b where lp: "last_pos r = Some (a, b)" and ia: "integral a" and ib: "integral b"
    and d: "data (last (moves (events (macro r))))
        = PDict [(''x'', PInt (num_int a)), (''y'', PInt (num_int b))]"
    using assms(1,2) by (auto simp: repeat_inv_def)
  have "num_int a \<noteq> num_int x \<or> num_int b \<noteq> num_int y"
    using integral_differ [OF ia ib assms(3,4)] assms(5) lp by simp
  then show ?thesis
    using assms(1,3,4) False d
    by (auto simp: repeat_inv_def append_event_def moves_snoc no_repeat_snoc)
qed

lemma repeat_inv_call:
  assumes "repeat_inv r" and "integral_call c"
  shows "repeat_inv (Recorder_call pc r c)"
proof (cases c)
  case Start
  then show ?thesis
    using assms by (simp add: Recorder_start_def repeat_inv_def moves_def)
next
  case Stop
  then show ?thesis
    using assms by (simp add: Recorder_stop_def repeat_inv_def)
next
  case (Move x y)
  have xy: "integral x" "integral y" using assms(2) Move by simp_all
  show ?thesis
  proof (cases "recording r")
    case False
    then show ?thesis using assms(1) by (simp add: Move Recorder_on_move_def)
  next
    case True
    obtain tm c where nr: "now_rel pc (clock r) = (tm, c)" by (cases "now_rel pc (clock r)")
    have i1: "repeat_inv (r\<lparr>clock := c\<rparr>)" using assms(1) by (rule repeat_inv_clock)
    have mv: "\<not> same_pos (last_pos r) x y \<Longrightarrow>
        repeat_inv (append_event (r\<lparr>clock := c, last_move_t := tm, last_pos := Some (x, y)\<rparr>)
           \<lparr>t = tm, kind = PStr ''move'',
            data = PDict [(''x'', PInt (num_int x)), (''y'', PInt (num_int y))]\<rparr>)"
      using assms(1) True xy by (rule repeat_inv_move)
    show ?thesis
      using True nr i1 mv by (simp add: Move Recorder_on_move_def Let_def)
  qed
next
  case (Click x y b pressed)
  show ?thesis
    unfolding Click Recorder_call.simps Recorder_on_click_def
    using assms by (auto simp: repeat_inv_other split: prod.splits)
next
  case (Scrolled x y dx dy)
  show ?thesis
    unfolding Scrolled Recorder_call.simps Recorder_on_scroll_def
    using assms by (auto simp: repeat_inv_other split: prod.splits)
next
  case (Key_down k)
  show ?thesis
    unfolding Key_down Recorder_call.simps Recorder_on_key_press_def
    using assms by (auto simp: repeat_inv_other split: prod.splits)
next
  case (Key_up k)
  show ?thesis
    unfolding Key_up Recorder_call.simps Recorder_on_key_release_def
    using assms by (auto simp: repeat_inv_other split: prod.splits)
qed

lemma recorder_moves_no_repeat:
  assumes "integral_session cs"
  shows "no_repeat (moves (events (macro (Recorder_run pc (Recorder_init iv) cs))))"
proof -
  have "repeat_inv r \<Longrightarrow> list_all integral_call cs \<Longrightarrow>
      repeat_inv (foldl (Recorder_call pc) r cs)" for r
    by (induction cs arbitrary: r) (simp_all add: repeat_inv_call)
  then show ?thesis
    using assms repeat_inv_init [of iv]
    by (simp add: Recorder_run_def repeat_inv_def integral_session_def)
qed


subsection \<open>MacOSTinyTask.py\<close>

lemma throttle_inv'_init: "throttle_inv' globals_init"
  by (simp add: throttle_inv'_def globals_init_def moves_def)

lemma throttle_inv'_other:
  assumes "throttle_inv' g" and "kind e \<noteq> PStr ''move''"
  shows "throttle_inv' (append_event' (g\<lparr>ticks' := n\<rparr>) e)"
  using assms by (simp add: throttle_inv'_def append_event'_def moves_snoc)

lemma throttle_inv'_ticks: "throttle_inv' g \<Longrightarrow> throttle_inv' (g\<lparr>ticks' := n\<rparr>)"
  by (simp add: throttle_inv'_def)

lemma now_rel'_ticks: "now_rel' pc g = (tm, g1) \<Longrightarrow> \<exists>n. g1 = g\<lparr>ticks' := n\<rparr>"
  by (auto simp: now_rel'_def Let_def split: option.splits if_splits)

lemma throttle_inv'_late:
  assumes "throttle_inv' g" and "\<not> tm - last_move_time g < MOVE_MIN_INTERVAL"
  shows "throttle_inv' (g\<lparr>last_move_time := tm\<rparr>)"
proof -
  have "last_move_time g \<le> tm"
    using assms(2) by (simp add: MOVE_MIN_INTERVAL_def)
  then show ?thesis
    using assms(1) by (fastforce simp: throttle_inv'_def)
qed

lemma throttle_inv'_move:
  assumes "throttle_inv' g" and "recording' g"
    and "\<not> tm - last_move_time g < MOVE_MIN_INTERVAL"
    and "\<not> same_pos (last_move_pos g) x y"
  shows "throttle_inv' (append_event' (g\<lparr>last_move_time := tm, last_move_pos := Some (x, y)\<rparr>)
           \<lparr>t = tm, kind = PStr ''move'',
            data = PDict [(''x'', num_py x), (''y'', num_py y)]\<rparr>)"
proof (cases "moves (events (macro' g)) = []")
  case True
  then show ?thesis
    using assms(1) by (simp add: throttle_inv'_def append_event'_def moves_snoc)
next
  case False
  then obtain a b where lp: "last_move_pos g = Some (a, b)"
    and d: "data (last (moves (events (macro' g)))) = PDict [(''x'', num_py a), (''y'', num_py b)]"
    and le: "t (last (moves (events (macro' g)))) \<le> last_move_time g"
    using assms(1,2) by (auto simp: throttle_inv'_def)
  have diff: "num_py a \<noteq> num_py x \<or> num_py b \<noteq> num_py y"
    using num_py_differ [of a b x y] assms(4) lp by simp
  have late: "MOVE_MIN_INTERVAL \<le> tm - t (last (moves (events (macro' g))))"
    using assms(3) le by simp
  show ?thesis
    using assms(1) False d diff late
    by (auto simp: throttle_inv'_def append_event'_def moves_snoc spaced_snoc no_repeat_snoc)
qed

lemma throttle_inv'_call:
  assumes "throttle_inv' g"
  shows "throttle_inv' (script_call pc g c)"
proof (cases c)
  case Start
  then show ?thesis
    using assms by (simp add: start_recording_def throttle_inv'_def moves_def)
next
  case Stop
  then show ?thesis
    using assms by (simp add: stop_recording_def throttle_inv'_def)
next
  case (Move x y)
  show ?thesis
  proof (cases "recording' g")
    case False
    then show ?thesis using assms by (simp add: Move on_move_def)
  next
    case True
    obtain tm g1 where nr: "now_rel' pc g = (tm, g1)" by (cases "now_rel' pc g")
    then obtain n where g1: "g1 = g\<lparr>ticks' := n\<rparr>" using now_rel'_ticks by blast
    have i1: "throttle_inv' g1" using assms g1 by (simp add: throttle_inv'_ticks)
    have r1: "recording' g1" using True g1 by simp
    have late: "\<not> tm - last_move_time g1 < MOVE_MIN_INTERVAL \<Longrightarrow>
        throttle_inv' (g1\<lparr>last_move_time := tm\<rparr>)"
      using i1 by (rule throttle_inv'_late)
    have mv: "\<not> tm - last_move_time g1 < MOVE_MIN_INTERVAL \<Longrightarrow>
        \<not> same_pos (last_move_pos g1) x y \<Longrightarrow>
        throttle_inv' (append_event' (g1\<lparr>last_move_time := tm, last_move_pos := Some (x, y)\<rparr>)
           \<lparr>t = tm, kind = PStr ''move'',
            data = PDict [(''x'', num_py x), (''y'', num_py y)]\<rparr>)"
      using i1 r1 by (rule throttle_inv'_move)
    show ?thesis
      using True nr i1 late mv by (simp add: Move on_move_def Let_def)
  qed
next
  case (Click x y b pressed)
  show ?thesis
    unfolding Click script_call.simps on_click_def
    using assms by (auto simp: throttle_inv'_other dest!: now_rel'_ticks split: prod.splits)
next
  case (Scrolled x y dx dy)
  show ?thesis
    unfolding Scrolled script_call.simps on_scroll_def
    using assms by (auto simp: throttle_inv'_other dest!: now_rel'_ticks split: prod.splits)
next
  case (Key_down k)
  show ?thesis
    unfolding Key_down script_call.simps on_key_press_def
    using assms by (auto simp: throttle_inv'_other dest!: now_rel'_ticks split: prod.splits)
next
  case (Key_up k)
  show ?thesis
    unfolding Key_up script_call.simps on_key_release_def
    using assms by (auto simp: throttle_inv'_other dest!: now_rel'_ticks split: prod.splits)
qed

lemma script_moves_throttled:
  "spaced MOVE_MIN_INTERVAL (moves (events (macro' (script_run pc globals_init cs))))
   \<and> no_repeat (moves (events (macro' (script_run pc globals_init cs))))"
proof -
  have "throttle_inv' g \<Longrightarrow> throttle_inv' (foldl (script_call pc) g cs)" for g
    by (induction cs arbitrary: g) (simp_all add: throttle_inv'_call)
  then show ?thesis
    using throttle_inv'_init by (simp add: script_run_def throttle_inv'_def)
qed

text \<open>
  C4. In recorder.py a move callback during a recording appends a move event exactly when
  the time since the last recorded move (since the start of the recording, before the
  first one) is at least the minimum interval and the position it is called with differs
  from the position the last recorded move was called with; only then are the remembered
  time and position replaced. In both variants the move events of every recorded macro
  are at least the interval apart. Consecutive move events never carry the same position
  in the script, and in recorder.py as long as the coordinates have no fractional part.
  Two sample sessions show where each variant leaves the claim. Moves to (1,1) after
  20 ms, to (1,1) again after 40 ms and to (2,2) after 45 ms: recorder.py records the
  first and the third, the script drops the third, because the repeated position at 40 ms
  was not recorded and yet moved its throttle time. Moves to (1.2, 1.0) after 20 ms and to
  (1.7, 1.0) after 40 ms: recorder.py compares the positions as received, stores their
  integer parts, and so records the position (1,1) twice in a row.
\<close>

theorem move_throttling:
  "(recording r \<and> t0 (clock r) = Some z \<and> z \<noteq> 0 \<longrightarrow>
      events (macro (Recorder_on_move pc r x y)) =
        (if move_min_interval r \<le> pc (ticks (clock r)) - z - last_move_t r
            \<and> \<not> same_pos (last_pos r) x y
         then events (macro r)
                @ [move_event (pc (ticks (clock r)) - z) (num_int x) (num_int y)]
         else events (macro r))
      \<and> (last_move_t (Recorder_on_move pc r x y), last_pos (Recorder_on_move pc r x y)) =
        (if move_min_interval r \<le> pc (ticks (clock r)) - z - last_move_t r
            \<and> \<not> same_pos (last_pos r) x y
         then (pc (ticks (clock r)) - z, Some (x, y))
         else (last_move_t r, last_pos r)))
   \<and> spaced iv (moves (events (macro (Recorder_run pc (Recorder_init iv) cs))))
   \<and> (integral_session cs \<longrightarrow>
        no_repeat (moves (events (macro (Recorder_run pc (Recorder_init iv) cs)))))
   \<and> spaced MOVE_MIN_INTERVAL (moves (events (macro' (script_run pc globals_init cs))))
   \<and> no_repeat (moves (events (macro' (script_run pc globals_init cs))))
   \<and> events (macro (Recorder_run pc0 (Recorder_init (1 / 100))
         [Start, Move (NInt 1) (NInt 1), Move (NInt 1) (NInt 1), Move (NInt 2) (NInt 2)]))
       = [move_event (20 / 1000) 1 1, move_event (45 / 1000) 2 2]
   \<and> events (macro' (script_run pc0 globals_init
         [Start, Move (NInt 1) (NInt 1), Move (NInt 1) (NInt 1), Move (NInt 2) (NInt 2)]))
       = [move_event (20 / 1000) 1 1]
   \<and> events (macro (Recorder_run pc0 (Recorder_init (1 / 100))
         [Start, Move (NFloat (12 / 10)) (NFloat 1), Move (NFloat (17 / 10)) (NFloat 1)]))
       = [move_event (20 / 1000) 1 1, move_event (40 / 1000) 1 1]"
proof -
  have a: "events (macro (Recorder_run pc0 (Recorder_init (1 / 100))
         [Start, Move (NInt 1) (NInt 1), Move (NInt 1) (NInt 1), Move (NInt 2) (NInt 2)]))
       = [move_event (20 / 1000) 1 1, move_event (45 / 1000) 2 2]"
    by (simp add: Recorder_run_def Recorder_init_def Recorder_start_def
        Recorder_on_move_def RecClock_start_def now_rel_def append_event_def
        pc0_def move_event_def Let_def same_pos_def)
  have b: "events (macro' (script_run pc0 globals_init
         [Start, Move (NInt 1) (NInt 1), Move (NInt 1) (NInt 1), Move (NInt 2) (NInt 2)]))
       = [move_event (20 / 1000) 1 1]"
    by (simp add: script_run_def start_recording_def globals_init_def on_move_def now_rel'_def
        append_event'_def MOVE_MIN_INTERVAL_def pc0_def move_event_def Let_def same_pos_def)
  have c: "events (macro (Recorder_run pc0 (Recorder_init (1 / 100))
         [Start, Move (NFloat (12 / 10)) (NFloat 1), Move (NFloat (17 / 10)) (NFloat 1)]))
       = [move_event (20 / 1000) 1 1, move_event (40 / 1000) 1 1]"
    by (simp add: Recorder_run_def Recorder_init_def Recorder_start_def
        Recorder_on_move_def RecClock_start_def now_rel_def append_event_def
        pc0_def move_event_def Let_def same_pos_def)
  show ?thesis
    using a b c Recorder_on_move_events [of r z pc x y] Recorder_on_move_state [of r z pc x y]
      recorder_moves_spaced [of iv pc cs] recorder_moves_no_repeat [of cs pc iv]
      script_moves_throttled [of pc cs]
    by blast
qed

theorem move_throttling_witness:
  "recording (Recorder_start pc0 (Recorder_init (1 / 100)))
   \<and> t0 (clock (Recorder_start pc0 (Recorder_init (1 / 100)))) = Some 100
   \<and> events (macro (Recorder_on_move pc0 (Recorder_start pc0 (Recorder_init (1 / 100)))
         (NInt 1) (NInt 1)))
       = [move_event (20 / 1000) 1 1]
   \<and> last_move_t (Recorder_on_move pc0 (Recorder_start pc0 (Recorder_init (1 / 100)))
         (NInt 1) (NInt 1))
       = 20 / 1000
   \<and> last_pos (Recorder_on_move pc0 (Recorder_start pc0 (Recorder_init (1 / 100)))
         (NInt 1) (NInt 1))
       = Some (NInt 1, NInt 1)
   \<and> integral_session
         [Start, Move (NInt 1) (NInt 1), Move (NInt 1) (NInt 1), Move (NInt 2) (NInt 2)]
   \<and> spaced (1 / 100) [move_event (20 / 1000) 1 1, move_event (45 / 1000) 2 2]
   \<and> no_repeat [move_event (20 / 1000) 1 1, move_event (45 / 1000) 2 2]
   \<and> \<not> integral_session
         [Start, Move (NFloat (12 / 10)) (NFloat 1), Move (NFloat (17 / 10)) (NFloat 1)]
   \<and> \<not> no_repeat [move_event (20 / 1000) 1 1, move_event (40 / 1000) 1 1]"
proof -
  note mt = move_throttling [where r = "Recorder_start pc0 (Recorder_init (1 / 100))" and z = 100
      and pc = pc0 and x = "NInt 1" and y = "NInt 1" and iv = "1 / 100"
      and cs = "[Start, Move (NInt 1) (NInt 1), Move (NInt 1) (NInt 1), Move (NInt 2) (NInt 2)]"]
  have i: "integral_session
         [Start, Move (NInt 1) (NInt 1), Move (NInt 1) (NInt 1), Move (NInt 2) (NInt 2)]"
    by (simp add: integral_session_def integral_def)
  have n: "\<not> integral_session
         [Start, Move (NFloat (12 / 10)) (NFloat 1), Move (NFloat (17 / 10)) (NFloat 1)]"
    by (simp add: integral_session_def integral_def)
  have r: "\<not> no_repeat [move_event (20 / 1000) 1 1, move_event (40 / 1000) 1 1]"
    by (simp add: move_event_def)
  have s: "spaced (1 / 100) [move_event (20 / 1000) 1 1, move_event (45 / 1000) 2 2]
      \<and> no_repeat [move_event (20 / 1000) 1 1, move_event (45 / 1000) 2 2]"
    using mt i by (simp add: moves_def move_event_def)
  have e: "events (macro (Recorder_on_move pc0 (Recorder_start pc0 (Recorder_init (1 / 100)))
         (NInt 1) (NInt 1)))
       = [move_event (20 / 1000) 1 1]
     \<and> last_move_t (Recorder_on_move pc0 (Recorder_start pc0 (Recorder_init (1 / 100)))
         (NInt 1) (NInt 1)) = 20 / 1000
     \<and> last_pos (Recorder_on_move pc0 (Recorder_start pc0 (Recorder_init (1 / 100)))
         (NInt 1) (NInt 1)) = Some (NInt 1, NInt 1)"
    using mt
    by (simp add: Recorder_start_def Recorder_init_def RecClock_start_def pc0_def same_pos_def)
  have st: "recording (Recorder_start pc0 (Recorder_init (1 / 100)))
     \<and> t0 (clock (Recorder_start pc0 (Recorder_init (1 / 100)))) = Some 100"
    by (simp add: Recorder_start_def Recorder_init_def RecClock_start_def pc0_def)
  show ?thesis using i n r s e st by blast
qed

section \<open>Recording: the keys of the control surface\<close>

lemma fkeys: "FKEY_TO_PYNPUT ''F3'' = Some (Key ''f3'')" "FKEY_TO_PYNPUT ''F7'' = Some (Key ''f7'')"
  "FKEY_TO_PYNPUT ''F4'' = Some (Key ''f4'')" "FKEY_TO_PYNPUT ''F6'' = Some (Key ''f6'')"
  by code_simp+

lemma get_control_keys_default:
  "get_control_keys DEFAULT_KEYS = {Key ''f3'', Key ''f7'', Key ''f4'', Key ''f6''}"
  by (simp add: get_control_keys_def DEFAULT_KEYS_def fkeys)

text \<open>
  C5. Both recorders drop the press and the release of a key in their own hard-coded set
  (F8 to F11 and Escape). In the modular variant this is not the set of the control
  surface: \<open>start_rec\<close> leaves \<open>IGNORE_KEYS\<close> as it is and creates no \<open>ignore_keys\<close>
  attribute. With the default bindings the control keys are F3, F7, F4 and F6, and the
  release of F3 right after the recording was started with it ends up in the macro that
  \<open>stop_rec\<close> hands back.
\<close>

theorem reserved_keys:
  "(k \<in> IGNORE_KEYS r \<longrightarrow> Recorder_on_key_press pc r k = r \<and> Recorder_on_key_release pc r k = r)
   \<and> (k \<in> IGNORE_KEYS' \<longrightarrow> on_key_press pc g k = g \<and> on_key_release pc g k = g)
   \<and> IGNORE_KEYS (rec (start_rec pc a)) = IGNORE_KEYS (rec a)
   \<and> (ignore_keys (rec a) = None \<longrightarrow> ignore_keys (rec (start_rec pc a)) = None)
   \<and> get_control_keys (keys (app_init DEFAULT_KEYS))
       = {Key ''f3'', Key ''f7'', Key ''f4'', Key ''f6''}
   \<and> IGNORE_KEYS (rec (start_rec pc0 (app_init DEFAULT_KEYS)))
       = {Key ''f8'', Key ''f9'', Key ''f10'', Key ''f11'', Key ''esc''}
   \<and> events (macro_ref (stop_rec ((start_rec pc0 (app_init DEFAULT_KEYS))
         \<lparr>rec := Recorder_on_key_release pc0 (rec (start_rec pc0 (app_init DEFAULT_KEYS)))
                   (Key ''f3'')\<rparr>)))
       = [key_event (20 / 1000) ''krelease'' ''key:f3'']"
proof -
  have a: "k \<in> IGNORE_KEYS r \<longrightarrow>
      Recorder_on_key_press pc r k = r \<and> Recorder_on_key_release pc r k = r"
    by (simp add: Recorder_on_key_press_def Recorder_on_key_release_def)
  have a': "k \<in> IGNORE_KEYS' \<longrightarrow> on_key_press pc g k = g \<and> on_key_release pc g k = g"
    by (simp add: on_key_press_def on_key_release_def)
  have b: "IGNORE_KEYS (rec (start_rec pc a)) = IGNORE_KEYS (rec a)"
    by (simp add: start_rec_def set_status_def Recorder_start_def Let_def)
  have c: "ignore_keys (rec a) = None \<longrightarrow> ignore_keys (rec (start_rec pc a)) = None"
    by (simp add: start_rec_def set_status_def Recorder_start_def Let_def)
  have d: "get_control_keys (keys (app_init DEFAULT_KEYS))
       = {Key ''f3'', Key ''f7'', Key ''f4'', Key ''f6''}"
    by (simp add: app_init_def get_control_keys_default)
  have e: "IGNORE_KEYS (rec (start_rec pc0 (app_init DEFAULT_KEYS)))
       = {Key ''f8'', Key ''f9'', Key ''f10'', Key ''f11'', Key ''esc''}"
    by (simp add: start_rec_def set_status_def Recorder_start_def Let_def app_init_def
        Recorder_init_def)
  have f: "events (macro_ref (stop_rec ((start_rec pc0 (app_init DEFAULT_KEYS))
         \<lparr>rec := Recorder_on_key_release pc0 (rec (start_rec pc0 (app_init DEFAULT_KEYS)))
                   (Key ''f3'')\<rparr>)))
       = [key_event (20 / 1000) ''krelease'' ''key:f3'']"
    by (simp add: stop_rec_def start_rec_def app_init_def set_status_def Recorder_init_def
        Recorder_start_def Recorder_stop_def Recorder_on_key_release_def RecClock_start_def
        now_rel_def append_event_def pc0_def key_event_def Let_def)
  show ?thesis using a a' b c d e f by blast
qed

theorem reserved_keys_witness:
  "Key ''f8'' \<in> IGNORE_KEYS (Recorder_start pc0 (Recorder_init (1 / 100)))
   \<and> Recorder_on_key_press pc0 (Recorder_start pc0 (Recorder_init (1 / 100))) (Key ''f8'')
       = Recorder_start pc0 (Recorder_init (1 / 100))
   \<and> Key ''f8'' \<in> IGNORE_KEYS'
   \<and> on_key_press pc0 (fst (start_recording pc0 globals_init)) (Key ''f8'')
       = fst (start_recording pc0 globals_init)
   \<and> ignore_keys (rec (app_init DEFAULT_KEYS)) = None
   \<and> ignore_keys (rec (start_rec pc0 (app_init DEFAULT_KEYS))) = None
   \<and> Key ''f3'' \<in> get_control_keys (keys (app_init DEFAULT_KEYS))
   \<and> Key ''f3'' \<notin> IGNORE_KEYS (rec (start_rec pc0 (app_init DEFAULT_KEYS)))"
  using reserved_keys [where k = "Key ''f8''" and r = "Recorder_start pc0 (Recorder_init (1 / 100))"
      and pc = pc0 and g = "fst (start_recording pc0 globals_init)" and a = "app_init DEFAULT_KEYS"]
  by (simp add: Recorder_start_def Recorder_init_def IGNORE_KEYS'_def app_init_def)

end
